theory Spec2Isabelle
  imports Complex_Main
begin

section \<open>Data model\<close>

text \<open>
  The engine of \<^verbatim>\<open>FCLMethodWrapper.h\<close> holds one bounding-volume model for the
  environment and one per robot part. Coordinates are C++ floating-point numbers; the
  embedding keeps the coordinate type \<open>'a\<close> abstract and uses nothing of it but zero, one
  and the subtraction that the centre shift performs. Times of impact and distances are
  \<^verbatim>\<open>double\<close> values that the code only stores and compares; they are modelled as
  reals, and the one infinity the code produces itself is a constructor of its own.
  Container sizes and loop counters are natural numbers: meshes are taken to hold fewer
  than \<open>2^32\<close> points, so that the \<^verbatim>\<open>unsigned int\<close> counters do not wrap.
\<close>

type_synonym 'a vec3 = "'a \<times> 'a \<times> 'a"

type_synonym 'a quat = "'a \<times> 'a \<times> 'a \<times> 'a"

type_synonym 'a rot = "'a vec3 \<times> 'a vec3 \<times> 'a vec3"

type_synonym Triangle = "nat \<times> nat \<times> nat"

text \<open>\<^verbatim>\<open>t[j] -= center[i]\<close>: componentwise subtraction of \<^verbatim>\<open>aiVector3D\<close>.\<close>

definition vec_sub :: "'a::minus vec3 \<Rightarrow> 'a vec3 \<Rightarrow> 'a vec3" where
  "vec_sub p c = (case p of (x, y, z) \<Rightarrow> case c of (cx, cy, cz) \<Rightarrow> (x - cx, y - cy, z - cz))"

text \<open>The value of \<^verbatim>\<open>aiVector3D shift(0.0, 0.0, 0.0)\<close>.\<close>

definition zero_vec :: "'a::zero vec3" where
  "zero_vec = (0, 0, 0)"

text \<open>The identity rotation \<^verbatim>\<open>(w, x, y, z) = (1, 0, 0, 0)\<close> of a fresh model.\<close>

definition identity_quat :: "'a::{zero,one} quat" where
  "identity_quat = (1, 0, 0, 0)"

text \<open>
  Modelled from the spec: the Geometric Model (\<^verbatim>\<open>fcl::BVHModel\<close>, declared in the
  collision library, not under src/). It holds the merged points and triangles and, for a
  robot part, the current scratch pose that \<^verbatim>\<open>setTransform\<close> overwrites.
  A model with zero triangles is legal and means "empty". Building the hierarchy
  (\<^verbatim>\<open>endModel\<close>, \<^verbatim>\<open>computeLocalAABB\<close>) changes none of these fields.
\<close>

record 'a Model =
  vertices :: "'a vec3 list"
  tri_indices :: "Triangle list"
  pose_rotation :: "'a quat"
  pose_translation :: "'a vec3"

definition num_tris :: "'a Model \<Rightarrow> nat" where
  "num_tris m = length (tri_indices m)"

text \<open>A default-constructed model followed by \<^verbatim>\<open>beginModel\<close>: no geometry, identity pose.\<close>

definition beginModel :: "'a::{zero,one} Model" where
  "beginModel = \<lparr>vertices = [], tri_indices = [], pose_rotation = identity_quat,
                  pose_translation = zero_vec\<rparr>"

text \<open>
  \<^verbatim>\<open>addSubModel (ps, ts)\<close> appends the points and the triangles, the triangle indices
  offset by the number of points the model held before.
\<close>

definition addSubModel :: "'a Model \<Rightarrow> 'a vec3 list \<Rightarrow> Triangle list \<Rightarrow> 'a Model" where
  "addSubModel m ps ts =
     m\<lparr>vertices := vertices m @ ps,
       tri_indices := tri_indices m @
         map (\<lambda>(a, b, c). (a + length (vertices m), b + length (vertices m), c + length (vertices m))) ts\<rparr>"

definition setTransform :: "'a Model \<Rightarrow> 'a quat \<Rightarrow> 'a vec3 \<Rightarrow> 'a Model" where
  "setTransform m q t = m\<lparr>pose_rotation := q, pose_translation := t\<rparr>"

text \<open>
  Modelled from the spec: the Geometry Specification (\<^verbatim>\<open>GeometrySpecification.h\<close> is
  not under src/): obstacle mesh source(s) with their shifts, and one mesh source per robot
  part with an optional shift. A mesh source is a pointer to a scene and may be null.
\<close>

record ('s, 'a) GeometrySpecification =
  robot :: "'s option list"
  robotShift :: "'a vec3 list"
  obstacles :: "'s option list"
  obstaclesShift :: "'a vec3 list"

text \<open>
  \<^verbatim>\<open>assert (t.size () % 3 == 0)\<close> aborts the process when it fails, in a build that
  compiles assertions in. When the macro \<^verbatim>\<open>NDEBUG\<close> is defined the assertion expands to
  nothing. The construction functions take the build's \<open>NDEBUG\<close> as their first argument.
\<close>

datatype error = AssertionFailed

section \<open>Model construction\<close>

text \<open>
  \<^verbatim>\<open>for (j = 0; j < t.size (); j += 3) triangles.push_back (Triangle (j, j+1, j+2))\<close>
\<close>

function triangles_loop :: "nat \<Rightarrow> nat \<Rightarrow> Triangle list \<Rightarrow> Triangle list" where
  "triangles_loop n j triangles =
     (if j < n then triangles_loop n (j + 3) (triangles @ [(j, j + 1, j + 2)]) else triangles)"
  by pat_completeness auto
termination
  by (relation "measure (\<lambda>(n, j, triangles). n - j)") auto

text \<open>
  The loop over the scenes of the overload of \<^verbatim>\<open>getFCLModelFromScene\<close> that takes
  vectors of scenes and centres, here \<open>getFCLModelFromScenes\<close>. A null scene pointer is
  \<open>None\<close>. The mesh
  ingestion \<^verbatim>\<open>scene::extractTriangles\<close> (in \<^verbatim>\<open>assimpUtil.h\<close>, not under src/) is
  the parameter \<open>extractTriangles\<close>: it yields the flat point list of a scene.
\<close>

function scenes_loop ::
  "bool \<Rightarrow> ('s \<Rightarrow> 'a::minus vec3 list) \<Rightarrow> 's option list \<Rightarrow> 'a vec3 list \<Rightarrow> nat \<Rightarrow>
   'a vec3 list \<Rightarrow> Triangle list \<Rightarrow> error + ('a vec3 list \<times> Triangle list)" where
  "scenes_loop NDEBUG extractTriangles scenes center i pts triangles =
     (if i < length scenes then
        (case scenes ! i of
           None \<Rightarrow> scenes_loop NDEBUG extractTriangles scenes center (i + 1) pts triangles
         | Some scene \<Rightarrow>
             (let t = extractTriangles scene;
                  t = (if length center > i then map (\<lambda>p. vec_sub p (center ! i)) t else t)
              in if \<not> NDEBUG \<and> length t mod 3 \<noteq> 0 then Inl AssertionFailed
                 else scenes_loop NDEBUG extractTriangles scenes center (i + 1)
                        (pts @ t) (triangles_loop (length t) 0 triangles)))
      else Inr (pts, triangles))"
  by pat_completeness auto
termination
  by (relation "measure (\<lambda>(nd, ext, scenes, center, i, pts, triangles). length scenes - i)") auto

definition getFCLModelFromScenes ::
  "bool \<Rightarrow> ('s \<Rightarrow> 'a::minus vec3 list) \<Rightarrow> 's option list \<Rightarrow> 'a vec3 list \<Rightarrow>
   error + ('a vec3 list \<times> Triangle list)" where
  "getFCLModelFromScenes NDEBUG extractTriangles scenes center =
     scenes_loop NDEBUG extractTriangles scenes center 0 [] []"

text \<open>The single-scene version wraps its arguments into one-element vectors.\<close>

definition getFCLModelFromScene ::
  "bool \<Rightarrow> ('s \<Rightarrow> 'a::minus vec3 list) \<Rightarrow> 's option \<Rightarrow> 'a vec3 \<Rightarrow>
   error + ('a vec3 list \<times> Triangle list)" where
  "getFCLModelFromScene NDEBUG extractTriangles scene center =
     getFCLModelFromScenes NDEBUG extractTriangles [scene] [center]"

text \<open>
  The engine. The fields are the members of the class, named without the trailing
  underscore. The two callbacks are fields, as in the class; the message interface and
  the mutex carry no data that a query reads.
\<close>

record ('a, 'st, 'sub) FCLMethodWrapper =
  environment :: "'a Model"
  robotParts :: "'a Model list"
  extractState :: "'st \<Rightarrow> nat \<Rightarrow> 'sub"
  selfCollision :: bool
  poseFromStateCallback :: "'sub \<Rightarrow> 'a vec3 \<times> 'a quat"

text \<open>The loop of \<^verbatim>\<open>configure\<close> over the robot pieces.\<close>

function configure_robot_loop ::
  "bool \<Rightarrow> ('s \<Rightarrow> 'a::{zero,one,minus} vec3 list) \<Rightarrow> ('s, 'a) GeometrySpecification \<Rightarrow> nat \<Rightarrow>
   'a Model list \<Rightarrow> error + 'a Model list" where
  "configure_robot_loop NDEBUG extractTriangles geom rbt parts =
     (if rbt < length (robot geom) then
        (let shift = (if length (robotShift geom) > rbt then robotShift geom ! rbt else zero_vec)
         in case getFCLModelFromScene NDEBUG extractTriangles (robot geom ! rbt) shift of
              Inl err \<Rightarrow> Inl err
            | Inr tri_model \<Rightarrow>
                configure_robot_loop NDEBUG extractTriangles geom (rbt + 1)
                  (parts @ [addSubModel beginModel (fst tri_model) (snd tri_model)]))
      else Inr parts)"
  by pat_completeness auto
termination
  by (relation "measure (\<lambda>(nd, ext, geom, rbt, parts). length (robot geom) - rbt)") auto

text \<open>
  \<^verbatim>\<open>configure\<close>: the environment from the obstacle sources, then the robot pieces.
  It yields the two model fields of the engine, or the failed assertion.
\<close>

definition configure ::
  "bool \<Rightarrow> ('s \<Rightarrow> 'a::{zero,one,minus} vec3 list) \<Rightarrow> ('s, 'a) GeometrySpecification \<Rightarrow>
   error + ('a Model \<times> 'a Model list)" where
  "configure NDEBUG extractTriangles geom =
     (case getFCLModelFromScenes NDEBUG extractTriangles (obstacles geom) (obstaclesShift geom) of
        Inl err \<Rightarrow> Inl err
      | Inr tri_model \<Rightarrow>
          (case configure_robot_loop NDEBUG extractTriangles geom 0 [] of
             Inl err \<Rightarrow> Inl err
           | Inr parts \<Rightarrow> Inr (addSubModel beginModel (fst tri_model) (snd tri_model), parts)))"

text \<open>The constructor: the member initialisers, then \<^verbatim>\<open>configure (geom)\<close>.\<close>

definition FCLMethodWrapper_new ::
  "bool \<Rightarrow> ('s \<Rightarrow> 'a::{zero,one,minus} vec3 list) \<Rightarrow> ('s, 'a) GeometrySpecification \<Rightarrow>
   ('st \<Rightarrow> nat \<Rightarrow> 'sub) \<Rightarrow> bool \<Rightarrow> ('sub \<Rightarrow> 'a vec3 \<times> 'a quat) \<Rightarrow>
   error + ('a, 'st, 'sub) FCLMethodWrapper" where
  "FCLMethodWrapper_new NDEBUG extractTriangles geom se selfColl poseCallback =
     (case configure NDEBUG extractTriangles geom of
        Inl err \<Rightarrow> Inl err
      | Inr (env, parts) \<Rightarrow>
          Inr \<lparr>environment = env, robotParts = parts, extractState = se,
               selfCollision = selfColl, poseFromStateCallback = poseCallback\<rparr>)"

section \<open>The collision library\<close>

text \<open>
  The intersection, time-of-impact and distance routines belong to the collision library
  and are parameters of every query. \<open>collide a b\<close> is the number of contacts that
  \<^verbatim>\<open>fcl::collide (&a, &b, 1, false, false, contacts)\<close> returns;
  \<open>conservativeAdvancement a ma b mb toc\<close> is the return value of
  \<^verbatim>\<open>fcl::conservativeAdvancement\<close> together with the value it leaves in its reference
  argument, which held \<open>toc\<close> at the call; \<open>min_distance env a\<close> is the field
  \<^verbatim>\<open>distanceNode.min_distance\<close> after \<^verbatim>\<open>initialize\<close> and \<^verbatim>\<open>fcl::distance\<close>.
  The routines take the models by pointer to const: they see the stored pose and
  write nothing. The \<^verbatim>\<open>contacts\<close> vector is local and never read.
\<close>

datatype 'a InterpMotion =
  InterpMotion "'a rot" "'a vec3" "'a rot" "'a vec3"
| InterpMotion_default

datatype BVH_REAL = Finite real | Infinity

text \<open>The comparison \<^verbatim>\<open>a < b\<close> on distances.\<close>

fun less_BVH_REAL :: "BVH_REAL \<Rightarrow> BVH_REAL \<Rightarrow> bool" where
  "less_BVH_REAL (Finite a) (Finite b) = (a < b)"
| "less_BVH_REAL (Finite a) Infinity = True"
| "less_BVH_REAL Infinity b = False"

record 'a fcl =
  collide :: "'a Model \<Rightarrow> 'a Model \<Rightarrow> int"
  conservativeAdvancement ::
    "'a Model \<Rightarrow> 'a InterpMotion \<Rightarrow> 'a Model \<Rightarrow> 'a InterpMotion \<Rightarrow> real \<Rightarrow> int \<times> real"
  min_distance :: "'a Model \<Rightarrow> 'a Model \<Rightarrow> BVH_REAL"
  toRotation :: "'a quat \<Rightarrow> 'a rot"

text \<open>
  Every call that leaves the engine is recorded, in order, in a trace next to the
  result: the callbacks, the writes of a scratch pose and the library routines.
\<close>

datatype object = Environment | RobotPart nat

datatype event =
  PoseFromState nat
| SetTransform nat
| Collide object object
| ConservativeAdvancement object object
| Distance object object

section \<open>Queries\<close>

text \<open>
  \<^verbatim>\<open>transformRobot\<close>: one callback and one \<^verbatim>\<open>setTransform\<close> per part.
\<close>

function transformRobot_loop ::
  "('a, 'st, 'sub) FCLMethodWrapper \<Rightarrow> 'st \<Rightarrow> nat \<Rightarrow> event list \<Rightarrow>
   ('a, 'st, 'sub) FCLMethodWrapper \<times> event list" where
  "transformRobot_loop e state i tr =
     (if i < length (robotParts e) then
        (case poseFromStateCallback e (extractState e state i) of
           (translation, quaternion) \<Rightarrow>
             transformRobot_loop
               (e\<lparr>robotParts := (robotParts e)[i := setTransform (robotParts e ! i) quaternion translation]\<rparr>)
               state (i + 1) (tr @ [PoseFromState i, SetTransform i]))
      else (e, tr))"
  by pat_completeness auto
termination
  by (relation "measure (\<lambda>(e, state, i, tr). length (robotParts e) - i)") auto

definition transformRobot ::
  "('a, 'st, 'sub) FCLMethodWrapper \<Rightarrow> 'st \<Rightarrow> event list \<Rightarrow>
   ('a, 'st, 'sub) FCLMethodWrapper \<times> event list" where
  "transformRobot e state tr = transformRobot_loop e state 0 tr"

subsection \<open>The discrete query\<close>

text \<open>
  \<^verbatim>\<open>for (i = 0; i < robotParts_.size () && valid; ++i)
    valid &= fcl::collide (&robotParts_[i], &environment_, ...) == 0;\<close>
\<close>

function isValid_env_loop ::
  "'a fcl \<Rightarrow> ('a, 'st, 'sub) FCLMethodWrapper \<Rightarrow> nat \<Rightarrow> bool \<Rightarrow> event list \<Rightarrow>
   bool \<times> event list" where
  "isValid_env_loop lib e i valid tr =
     (if i < length (robotParts e) \<and> valid then
        isValid_env_loop lib e (i + 1)
          (valid \<and> collide lib (robotParts e ! i) (environment e) = 0)
          (tr @ [Collide (RobotPart i) Environment])
      else (valid, tr))"
  by pat_completeness auto
termination
  by (relation "measure (\<lambda>(lib, e, i, valid, tr). length (robotParts e) - i)") auto

text \<open>The inner loop of the self-collision test, \<open>j\<close> from \<open>i + 1\<close>.\<close>

function isValid_self_inner ::
  "'a fcl \<Rightarrow> ('a, 'st, 'sub) FCLMethodWrapper \<Rightarrow> nat \<Rightarrow> nat \<Rightarrow> bool \<Rightarrow> event list \<Rightarrow>
   bool \<times> event list" where
  "isValid_self_inner lib e i j valid tr =
     (if j < length (robotParts e) \<and> valid then
        isValid_self_inner lib e i (j + 1)
          (valid \<and> collide lib (robotParts e ! i) (robotParts e ! j) = 0)
          (tr @ [Collide (RobotPart i) (RobotPart j)])
      else (valid, tr))"
  by pat_completeness auto
termination
  by (relation "measure (\<lambda>(lib, e, i, j, valid, tr). length (robotParts e) - j)") auto

function isValid_self_outer ::
  "'a fcl \<Rightarrow> ('a, 'st, 'sub) FCLMethodWrapper \<Rightarrow> nat \<Rightarrow> bool \<Rightarrow> event list \<Rightarrow>
   bool \<times> event list" where
  "isValid_self_outer lib e i valid tr =
     (if i < length (robotParts e) \<and> valid then
        (case isValid_self_inner lib e i (i + 1) valid tr of
           (valid', tr') \<Rightarrow> isValid_self_outer lib e (i + 1) valid' tr')
      else (valid, tr))"
  by pat_completeness auto
termination
  by (relation "measure (\<lambda>(lib, e, i, valid, tr). length (robotParts e) - i)") auto

text \<open>
  \<^verbatim>\<open>isValid (state)\<close>. The result is the validity, the engine as the query leaves it
  (the scratch poses are \<^verbatim>\<open>mutable\<close>) and the trace. The scoped lock makes the body
  one atomic step; the embedding is of one query run on its own.
\<close>

definition isValid ::
  "'a fcl \<Rightarrow> ('a, 'st, 'sub) FCLMethodWrapper \<Rightarrow> 'st \<Rightarrow>
   bool \<times> ('a, 'st, 'sub) FCLMethodWrapper \<times> event list" where
  "isValid lib e state =
     (case (if num_tris (environment e) > 0 then
              (case transformRobot e state [] of
                 (e', tr) \<Rightarrow>
                   (case isValid_env_loop lib e' 0 True tr of
                      (valid, tr') \<Rightarrow> (valid, e', tr')))
            else (True, e, [])) of
        (valid, e', tr) \<Rightarrow>
          (if selfCollision e' \<and> valid then
             (case isValid_self_outer lib e' 0 valid tr of
                (valid', tr') \<Rightarrow> (valid', e', tr'))
           else (valid, e', tr)))"

subsection \<open>The continuous query\<close>

text \<open>The interpolated motion of part \<open>i\<close> from its pose at \<open>s1\<close> to its pose at \<open>s2\<close>.\<close>

definition part_motion ::
  "'a fcl \<Rightarrow> ('a, 'st, 'sub) FCLMethodWrapper \<Rightarrow> 'st \<Rightarrow> 'st \<Rightarrow> nat \<Rightarrow> 'a InterpMotion" where
  "part_motion lib e s1 s2 i =
     (case poseFromStateCallback e (extractState e s1 i) of
        (trans1, quat1) \<Rightarrow>
          (case poseFromStateCallback e (extractState e s2 i) of
             (trans2, quat2) \<Rightarrow>
               InterpMotion (toRotation lib quat1) trans1 (toRotation lib quat2) trans2))"

function isValid_motion_env_loop ::
  "'a fcl \<Rightarrow> ('a, 'st, 'sub) FCLMethodWrapper \<Rightarrow> 'st \<Rightarrow> 'st \<Rightarrow> nat \<Rightarrow> bool \<Rightarrow> real \<Rightarrow>
   event list \<Rightarrow> bool \<times> real \<times> event list" where
  "isValid_motion_env_loop lib e s1 s2 i valid collisionTime tr =
     (if i < length (robotParts e) \<and> valid then
        (let motion1 = part_motion lib e s1 s2 i;
             motion2 = InterpMotion_default
         in case conservativeAdvancement lib (robotParts e ! i) motion1 (environment e) motion2
                   collisionTime of
              (n, collisionTime') \<Rightarrow>
                isValid_motion_env_loop lib e s1 s2 (i + 1) (valid \<and> n = 0) collisionTime'
                  (tr @ [PoseFromState i, PoseFromState i,
                         ConservativeAdvancement (RobotPart i) Environment]))
      else (valid, collisionTime, tr))"
  by pat_completeness auto
termination
  by (relation "measure (\<lambda>(lib, e, s1, s2, i, valid, ct, tr). length (robotParts e) - i)") auto

function isValid_motion_self_inner ::
  "'a fcl \<Rightarrow> ('a, 'st, 'sub) FCLMethodWrapper \<Rightarrow> 'st \<Rightarrow> 'st \<Rightarrow> nat \<Rightarrow> 'a InterpMotion \<Rightarrow>
   nat \<Rightarrow> bool \<Rightarrow> real \<Rightarrow> event list \<Rightarrow> bool \<times> real \<times> event list" where
  "isValid_motion_self_inner lib e s1 s2 i motion_i j valid collisionTime tr =
     (if j < length (robotParts e) \<and> valid then
        (let motion_j = part_motion lib e s1 s2 j
         in case conservativeAdvancement lib (robotParts e ! i) motion_i (robotParts e ! j) motion_j
                   collisionTime of
              (n, collisionTime') \<Rightarrow>
                isValid_motion_self_inner lib e s1 s2 i motion_i (j + 1) (valid \<and> n = 0)
                  collisionTime'
                  (tr @ [PoseFromState j, PoseFromState j,
                         ConservativeAdvancement (RobotPart i) (RobotPart j)]))
      else (valid, collisionTime, tr))"
  by pat_completeness auto
termination
  by (relation "measure (\<lambda>(lib, e, s1, s2, i, mi, j, valid, ct, tr). length (robotParts e) - j)")
    auto

function isValid_motion_self_outer ::
  "'a fcl \<Rightarrow> ('a, 'st, 'sub) FCLMethodWrapper \<Rightarrow> 'st \<Rightarrow> 'st \<Rightarrow> nat \<Rightarrow> bool \<Rightarrow> real \<Rightarrow>
   event list \<Rightarrow> bool \<times> real \<times> event list" where
  "isValid_motion_self_outer lib e s1 s2 i valid collisionTime tr =
     (if i < length (robotParts e) \<and> valid then
        (let motion_i = part_motion lib e s1 s2 i
         in case isValid_motion_self_inner lib e s1 s2 i motion_i (i + 1) valid collisionTime
                   (tr @ [PoseFromState i, PoseFromState i]) of
              (valid', collisionTime', tr') \<Rightarrow>
                isValid_motion_self_outer lib e s1 s2 (i + 1) valid' collisionTime' tr')
      else (valid, collisionTime, tr))"
  by pat_completeness auto
termination
  by (relation "measure (\<lambda>(lib, e, s1, s2, i, valid, ct, tr). length (robotParts e) - i)") auto

text \<open>
  \<^verbatim>\<open>isValid (s1, s2, collisionTime)\<close>, the overload for a motion, here
  \<open>isValid_motion\<close>. The result is the validity, the value left in
  \<^verbatim>\<open>collisionTime\<close>, the engine as the query leaves it and the trace. The body holds no
  assignment to a member and no call of \<^verbatim>\<open>setTransform\<close>.
\<close>

definition isValid_motion ::
  "'a fcl \<Rightarrow> ('a, 'st, 'sub) FCLMethodWrapper \<Rightarrow> 'st \<Rightarrow> 'st \<Rightarrow>
   bool \<times> real \<times> ('a, 'st, 'sub) FCLMethodWrapper \<times> event list" where
  "isValid_motion lib e s1 s2 =
     (case (if num_tris (environment e) > 0 then isValid_motion_env_loop lib e s1 s2 0 True 1 []
            else (True, 1, [])) of
        (valid, collisionTime, tr) \<Rightarrow>
          (if selfCollision e \<and> valid then
             (case isValid_motion_self_outer lib e s1 s2 0 valid collisionTime tr of
                (valid', collisionTime', tr') \<Rightarrow> (valid', collisionTime', e, tr'))
           else (valid, collisionTime, e, tr)))"

subsection \<open>The clearance query\<close>

text \<open>The loop over the parts; \<open>dist0\<close> is the local \<^verbatim>\<open>dist\<close>.\<close>

function clearance_loop ::
  "'a fcl \<Rightarrow> ('a, 'st, 'sub) FCLMethodWrapper \<Rightarrow> nat \<Rightarrow> BVH_REAL \<Rightarrow> event list \<Rightarrow>
   BVH_REAL \<times> event list" where
  "clearance_loop lib e i dist0 tr =
     (if i < length (robotParts e) then
        (let d = min_distance lib (environment e) (robotParts e ! i)
         in clearance_loop lib e (i + 1) (if less_BVH_REAL d dist0 then d else dist0)
              (tr @ [Distance Environment (RobotPart i)]))
      else (dist0, tr))"
  by pat_completeness auto
termination
  by (relation "measure (\<lambda>(lib, e, i, dist0, tr). length (robotParts e) - i)") auto

definition clearance ::
  "'a fcl \<Rightarrow> ('a, 'st, 'sub) FCLMethodWrapper \<Rightarrow> 'st \<Rightarrow>
   BVH_REAL \<times> ('a, 'st, 'sub) FCLMethodWrapper \<times> event list" where
  "clearance lib e state =
     (if num_tris (environment e) > 0 then
        (case transformRobot e state [] of
           (e', tr) \<Rightarrow>
             (case clearance_loop lib e' 0 Infinity tr of
                (dist0, tr') \<Rightarrow> (dist0, e', tr')))
      else (Infinity, e, []))"

section \<open>The rigid-body application in SE2\<close>

text \<open>
  \<^verbatim>\<open>SE2RigidBodyPlanning\<close>: one robot, self-collision checking off, and the geometric
  component of a state is the state itself, whatever the index.
\<close>

definition SE2_isSelfCollisionEnabled :: bool where
  "SE2_isSelfCollisionEnabled = False"

definition SE2_getRobotCount :: nat where
  "SE2_getRobotCount = 1"

definition SE2_getGeometricComponentStateInternal :: "'st \<Rightarrow> nat \<Rightarrow> 'st" where
  "SE2_getGeometricComponentStateInternal state index = state"

section \<open>Notions of the specification\<close>

text \<open>
  Part \<open>i\<close> of the robot transformed to the pose implied by \<open>state\<close>: the substate
  extractor, the pose callback, and the pose put on the part's model.
\<close>

definition posed_part :: "('a, 'st, 'sub) FCLMethodWrapper \<Rightarrow> 'st \<Rightarrow> nat \<Rightarrow> 'a Model" where
  "posed_part e state i =
     (case poseFromStateCallback e (extractState e state i) of
        (translation, quaternion) \<Rightarrow> setTransform (robotParts e ! i) quaternion translation)"

text \<open>
  Part \<open>i\<close> as the self-collision test of the discrete query reads it: posed at \<open>state\<close>
  when the environment has triangles, and with the pose the model already holds
  when it has none.
\<close>

definition tested_part :: "('a, 'st, 'sub) FCLMethodWrapper \<Rightarrow> 'st \<Rightarrow> nat \<Rightarrow> 'a Model" where
  "tested_part e state i =
     (if num_tris (environment e) > 0 then posed_part e state i else robotParts e ! i)"

text \<open>
  What the continuous query relies on from the time-of-impact routine. A call that
  reports no contact leaves the time as it was or sets it to the end of the segment;
  a call that reports a contact leaves a time in \<open>[0, 1)\<close>.
\<close>

definition no_contact_keeps_time :: "'a fcl \<Rightarrow> bool" where
  "no_contact_keeps_time lib \<longleftrightarrow>
     (\<forall>a ma b mb t. fst (conservativeAdvancement lib a ma b mb t) = 0 \<longrightarrow>
        snd (conservativeAdvancement lib a ma b mb t) = t \<or>
        snd (conservativeAdvancement lib a ma b mb t) = 1)"

definition contact_time_in_range :: "'a fcl \<Rightarrow> bool" where
  "contact_time_in_range lib \<longleftrightarrow>
     (\<forall>a ma b mb t. fst (conservativeAdvancement lib a ma b mb t) \<noteq> 0 \<longrightarrow>
        0 \<le> snd (conservativeAdvancement lib a ma b mb t) \<and>
        snd (conservativeAdvancement lib a ma b mb t) < 1)"

text \<open>The distance of part \<open>i\<close>, posed at \<open>state\<close>, from the environment.\<close>

definition part_distance ::
  "'a fcl \<Rightarrow> ('a, 'st, 'sub) FCLMethodWrapper \<Rightarrow> 'st \<Rightarrow> nat \<Rightarrow> BVH_REAL" where
  "part_distance lib e state i = min_distance lib (environment e) (posed_part e state i)"

text \<open>A finite, non-negative distance.\<close>

fun finite_nonneg :: "BVH_REAL \<Rightarrow> bool" where
  "finite_nonneg (Finite d) = (0 \<le> d)"
| "finite_nonneg Infinity = False"

text \<open>Two models of the same geometry, whatever their scratch poses.\<close>

definition same_geometry :: "'a Model \<Rightarrow> 'a Model \<Rightarrow> bool" where
  "same_geometry a b \<longleftrightarrow> vertices a = vertices b \<and> tri_indices a = tri_indices b"

text \<open>
  A time-of-impact routine that places the two models by the motions it is given and
  does not read the poses stored on them.
\<close>

definition advancement_ignores_pose :: "'a fcl \<Rightarrow> bool" where
  "advancement_ignores_pose lib \<longleftrightarrow>
     (\<forall>a a' ma b b' mb t. same_geometry a a' \<and> same_geometry b b' \<longrightarrow>
        conservativeAdvancement lib a ma b mb t = conservativeAdvancement lib a' ma b' mb t)"

text \<open>Two engines that differ at most in the scratch poses of their robot parts.\<close>

definition same_up_to_poses ::
  "('a, 'st, 'sub) FCLMethodWrapper \<Rightarrow> ('a, 'st, 'sub) FCLMethodWrapper \<Rightarrow> bool" where
  "same_up_to_poses e' e \<longleftrightarrow>
     environment e' = environment e \<and> extractState e' = extractState e \<and>
     selfCollision e' = selfCollision e \<and>
     poseFromStateCallback e' = poseFromStateCallback e \<and>
     list_all2 same_geometry (robotParts e') (robotParts e)"

text \<open>The events that write a scratch pose.\<close>

fun is_pose_write :: "event \<Rightarrow> bool" where
  "is_pose_write (SetTransform i) = True"
| "is_pose_write ev = False"

text \<open>A mesh source whose extracted point count is not a multiple of three.\<close>

fun malformed :: "('s \<Rightarrow> 'a vec3 list) \<Rightarrow> 's option \<Rightarrow> bool" where
  "malformed extractTriangles None = False"
| "malformed extractTriangles (Some scene) = (length (extractTriangles scene) mod 3 \<noteq> 0)"

text \<open>
  A source at which the assertion fires: a malformed one, in a build that compiles
  assertions in.
\<close>

definition assertion_fails :: "bool \<Rightarrow> ('s \<Rightarrow> 'a vec3 list) \<Rightarrow> 's option \<Rightarrow> bool" where
  "assertion_fails NDEBUG extractTriangles src \<longleftrightarrow> \<not> NDEBUG \<and> malformed extractTriangles src"

section \<open>Example inputs\<close>

text \<open>
  Scenes given directly by their point lists over integer coordinates, planner states
  that give each part a translation, and a stand-in for the collision library in which
  two models touch when they share a placed point.
\<close>

definition scene_points :: "int vec3 list \<Rightarrow> int vec3 list" where
  "scene_points scene = scene"

definition unit_triangle :: "int vec3 list" where
  "unit_triangle = [(0, 0, 0), (1, 0, 0), (0, 1, 0)]"

definition far_triangle :: "int vec3 list" where
  "far_triangle = [(10, 0, 0), (11, 0, 0), (10, 1, 0)]"

definition open_quad :: "int vec3 list" where
  "open_quad = [(0, 0, 0), (1, 0, 0), (0, 1, 0), (1, 1, 0)]"

definition placed_points :: "int Model \<Rightarrow> int vec3 \<Rightarrow> int vec3 list" where
  "placed_points m t =
     map (\<lambda>(x, y, z). (x + fst t, y + fst (snd t), z + snd (snd t))) (vertices m)"

definition touching :: "int vec3 list \<Rightarrow> int vec3 list \<Rightarrow> bool" where
  "touching ps qs = list_ex (\<lambda>p. p \<in> set qs) ps"

fun motion_start :: "int InterpMotion \<Rightarrow> int vec3" where
  "motion_start (InterpMotion r1 t1 r2 t2) = t1"
| "motion_start InterpMotion_default = (0, 0, 0)"

fun motion_end :: "int InterpMotion \<Rightarrow> int vec3" where
  "motion_end (InterpMotion r1 t1 r2 t2) = t2"
| "motion_end InterpMotion_default = (0, 0, 0)"

definition point_lib :: "int fcl" where
  "point_lib =
     \<lparr>collide = (\<lambda>a b.
        if touching (placed_points a (pose_translation a)) (placed_points b (pose_translation b))
        then 1 else 0),
      conservativeAdvancement = (\<lambda>a ma b mb toc.
        if touching (placed_points a (motion_start ma)) (placed_points b (motion_start mb))
        then (1, 0)
        else if touching (placed_points a (motion_end ma)) (placed_points b (motion_end mb))
        then (1, 1 / 2)
        else (0, 1)),
      min_distance = (\<lambda>env a.
        Finite (real_of_int \<bar>fst (pose_translation a) - fst (pose_translation env)\<bar>)),
      toRotation = (\<lambda>q. ((1, 0, 0), (0, 1, 0), (0, 0, 1)))\<rparr>"

definition translation_pose :: "int vec3 \<Rightarrow> int vec3 \<times> int quat" where
  "translation_pose sub = (sub, identity_quat)"

definition part_state :: "(nat \<Rightarrow> int vec3) \<Rightarrow> nat \<Rightarrow> int vec3" where
  "part_state state i = state i"

definition rest_state :: "nat \<Rightarrow> int vec3" where
  "rest_state i = (0, 0, 0)"

definition near_state :: "nat \<Rightarrow> int vec3" where
  "near_state i = (1, 0, 0)"

definition hit_state :: "nat \<Rightarrow> int vec3" where
  "hit_state i = (10, 0, 0)"

definition apart_state :: "nat \<Rightarrow> int vec3" where
  "apart_state i = (if i = 0 then (0, 0, 0) else (5, 0, 0))"

text \<open>Two copies of one triangle as the robot, no obstacle, self-collision checking on.\<close>

definition two_part_geom :: "(int vec3 list, int) GeometrySpecification" where
  "two_part_geom = \<lparr>robot = [Some unit_triangle, Some unit_triangle], robotShift = [],
                     obstacles = [], obstaclesShift = []\<rparr>"

definition two_part_engine :: "(int, nat \<Rightarrow> int vec3, int vec3) FCLMethodWrapper" where
  "two_part_engine =
     \<lparr>environment = beginModel,
      robotParts = [addSubModel beginModel unit_triangle [(0, 1, 2)],
                    addSubModel beginModel unit_triangle [(0, 1, 2)]],
      extractState = part_state, selfCollision = True,
      poseFromStateCallback = translation_pose\<rparr>"

text \<open>One triangle as the robot and one triangle, ten units away, as the obstacle.\<close>

definition one_part_geom :: "(int vec3 list, int) GeometrySpecification" where
  "one_part_geom = \<lparr>robot = [Some unit_triangle], robotShift = [],
                     obstacles = [Some far_triangle], obstaclesShift = []\<rparr>"

definition one_part_engine :: "(int, nat \<Rightarrow> int vec3, int vec3) FCLMethodWrapper" where
  "one_part_engine =
     \<lparr>environment = addSubModel beginModel far_triangle [(0, 1, 2)],
      robotParts = [addSubModel beginModel unit_triangle [(0, 1, 2)]],
      extractState = part_state, selfCollision = False,
      poseFromStateCallback = translation_pose\<rparr>"

text \<open>The same obstacle and no robot piece at all.\<close>

definition no_robot_geom :: "(int vec3 list, int) GeometrySpecification" where
  "no_robot_geom = \<lparr>robot = [], robotShift = [],
                     obstacles = [Some far_triangle], obstaclesShift = []\<rparr>"

definition no_robot_engine :: "(int, nat \<Rightarrow> int vec3, int vec3) FCLMethodWrapper" where
  "no_robot_engine =
     \<lparr>environment = addSubModel beginModel far_triangle [(0, 1, 2)],
      robotParts = [],
      extractState = part_state, selfCollision = False,
      poseFromStateCallback = translation_pose\<rparr>"


definition free_engine :: "(int, nat \<Rightarrow> int vec3, int vec3) FCLMethodWrapper" where
  "free_engine =
     \<lparr>environment = beginModel,
      robotParts = [addSubModel beginModel unit_triangle [(0, 1, 2)]],
      extractState = part_state, selfCollision = False,
      poseFromStateCallback = translation_pose\<rparr>"

text \<open>A robot mesh of four points.\<close>

definition open_quad_geom :: "(int vec3 list, int) GeometrySpecification" where
  "open_quad_geom = \<lparr>robot = [Some open_quad], robotShift = [],
                      obstacles = [Some far_triangle], obstaclesShift = []\<rparr>"

text \<open>
  What a build without assertions makes of it: the second triangle of the robot piece
  names the points 4 and 5 of a list of four.
\<close>

definition open_quad_engine :: "(int, nat \<Rightarrow> int vec3, int vec3) FCLMethodWrapper" where
  "open_quad_engine =
     \<lparr>environment = addSubModel beginModel far_triangle [(0, 1, 2)],
      robotParts = [addSubModel beginModel open_quad [(0, 1, 2), (3, 4, 5)]],
      extractState = part_state, selfCollision = False,
      poseFromStateCallback = translation_pose\<rparr>"

text \<open>The engine of the SE2 application over the one-triangle robot.\<close>

definition SE2_engine :: "(int, int vec3, int vec3) FCLMethodWrapper" where
  "SE2_engine =
     \<lparr>environment = addSubModel beginModel far_triangle [(0, 1, 2)],
      robotParts = replicate SE2_getRobotCount (addSubModel beginModel unit_triangle [(0, 1, 2)]),
      extractState = SE2_getGeometricComponentStateInternal,
      selfCollision = SE2_isSelfCollisionEnabled,
      poseFromStateCallback = translation_pose\<rparr>"

section \<open>Loops\<close>

text \<open>
  The loop equations are unconditional; they are unfolded one step at a time, and the
  properties of a loop go by induction along its calls.
\<close>

declare triangles_loop.simps [simp del] scenes_loop.simps [simp del]
  configure_robot_loop.simps [simp del] transformRobot_loop.simps [simp del]
  isValid_env_loop.simps [simp del] isValid_self_inner.simps [simp del]
  isValid_self_outer.simps [simp del] isValid_motion_env_loop.simps [simp del]
  isValid_motion_self_inner.simps [simp del] isValid_motion_self_outer.simps [simp del]
  clearance_loop.simps [simp del]

text \<open>Splitting the first index off a range of indices.\<close>

lemma all_from_step:
  "i < n \<Longrightarrow> (\<forall>k. i \<le> k \<and> k < n \<longrightarrow> P k) \<longleftrightarrow> P i \<and> (\<forall>k. Suc i \<le> k \<and> k < n \<longrightarrow> P k)"
proof -
  assume lt: "i < n"
  have "\<And>k. i \<le> k \<longleftrightarrow> k = i \<or> Suc i \<le> k" by auto
  then show ?thesis using lt by auto
qed

text \<open>
  \<^verbatim>\<open>transformRobot\<close> touches nothing but the scratch poses, and leaves on every part
  from \<open>i\<close> on the pose implied by the state.
\<close>

lemma transformRobot_loop_frame:
  "transformRobot_loop e state i tr = (e', tr') \<Longrightarrow>
     environment e' = environment e \<and> extractState e' = extractState e \<and>
     selfCollision e' = selfCollision e \<and> poseFromStateCallback e' = poseFromStateCallback e \<and>
     length (robotParts e') = length (robotParts e)"
proof (induction e state i tr arbitrary: e' tr' rule: transformRobot_loop.induct)
  case (1 e state i tr)
  show ?case
  proof (cases "i < length (robotParts e)")
    case True
    obtain t q where tq: "poseFromStateCallback e (extractState e state i) = (t, q)"
      by (cases "poseFromStateCallback e (extractState e state i)")
    let ?e1 = "e\<lparr>robotParts := (robotParts e)[i := setTransform (robotParts e ! i) q t]\<rparr>"
    from "1.prems" True tq
    have "transformRobot_loop ?e1 state (i + 1) (tr @ [PoseFromState i, SetTransform i]) = (e', tr')"
      by (subst (asm) transformRobot_loop.simps) simp
    from "1.IH"[OF True tq[symmetric] this] show ?thesis by simp
  next
    case False
    with "1.prems" show ?thesis
      by (subst (asm) transformRobot_loop.simps) simp
  qed
qed

lemma transformRobot_loop_parts:
  "transformRobot_loop e state i tr = (e', tr') \<Longrightarrow> k < length (robotParts e) \<Longrightarrow>
     robotParts e' ! k = (if i \<le> k then posed_part e state k else robotParts e ! k)"
proof (induction e state i tr arbitrary: e' tr' rule: transformRobot_loop.induct)
  case (1 e state i tr)
  show ?case
  proof (cases "i < length (robotParts e)")
    case True
    obtain t q where tq: "poseFromStateCallback e (extractState e state i) = (t, q)"
      by (cases "poseFromStateCallback e (extractState e state i)")
    let ?e1 = "e\<lparr>robotParts := (robotParts e)[i := setTransform (robotParts e ! i) q t]\<rparr>"
    from "1.prems" True tq
    have step: "transformRobot_loop ?e1 state (i + 1) (tr @ [PoseFromState i, SetTransform i]) = (e', tr')"
      by (subst (asm) transformRobot_loop.simps) simp
    have k1: "k < length (robotParts ?e1)" using "1.prems" by simp
    have "robotParts e' ! k = (if i + 1 \<le> k then posed_part ?e1 state k else robotParts ?e1 ! k)"
      by (rule "1.IH"[OF True tq[symmetric] step k1])
    moreover have "i \<le> k \<longleftrightarrow> k = i \<or> i + 1 \<le> k" by auto
    ultimately show ?thesis using tq "1.prems"(2)
      by (cases "k = i") (auto simp: posed_part_def nth_list_update)
  next
    case False
    with "1.prems" show ?thesis
      by (subst (asm) transformRobot_loop.simps) simp
  qed
qed

text \<open>The poses are fetched and written once per part, in the order of the parts.\<close>

lemma transformRobot_loop_trace:
  "transformRobot_loop e state i tr = (e', tr') \<Longrightarrow>
     tr' = tr @ concat (map (\<lambda>k. [PoseFromState k, SetTransform k]) [i..<length (robotParts e)])"
proof (induction e state i tr arbitrary: e' tr' rule: transformRobot_loop.induct)
  case (1 e state i tr)
  show ?case
  proof (cases "i < length (robotParts e)")
    case True
    obtain t q where tq: "poseFromStateCallback e (extractState e state i) = (t, q)"
      by (cases "poseFromStateCallback e (extractState e state i)")
    let ?e1 = "e\<lparr>robotParts := (robotParts e)[i := setTransform (robotParts e ! i) q t]\<rparr>"
    from "1.prems" True tq
    have "transformRobot_loop ?e1 state (i + 1) (tr @ [PoseFromState i, SetTransform i]) = (e', tr')"
      by (subst (asm) transformRobot_loop.simps) simp
    from "1.IH"[OF True tq[symmetric] this] True show ?thesis
      by (simp add: upt_conv_Cons)
  next
    case False
    with "1.prems" show ?thesis
      by (subst (asm) transformRobot_loop.simps) simp
  qed
qed


text \<open>
  The loops of the discrete query: the flag stays true exactly when every test from the
  current index on finds no contact.
\<close>

lemma isValid_env_loop_valid:
  "fst (isValid_env_loop lib e i valid tr) \<longleftrightarrow>
     valid \<and> (\<forall>k. i \<le> k \<and> k < length (robotParts e) \<longrightarrow>
                collide lib (robotParts e ! k) (environment e) = 0)"
proof (induction lib e i valid tr rule: isValid_env_loop.induct)
  case (1 lib e i valid tr)
  show ?case
  proof (cases "i < length (robotParts e) \<and> valid")
    case True
    have "fst (isValid_env_loop lib e i valid tr) =
          fst (isValid_env_loop lib e (i + 1) (valid \<and> collide lib (robotParts e ! i) (environment e) = 0)
             (tr @ [Collide (RobotPart i) Environment]))"
      using True by (subst isValid_env_loop.simps) simp
    also have "\<dots> \<longleftrightarrow> (valid \<and> collide lib (robotParts e ! i) (environment e) = 0) \<and>
        (\<forall>k. i + 1 \<le> k \<and> k < length (robotParts e) \<longrightarrow>
                collide lib (robotParts e ! k) (environment e) = 0)"
      by (rule "1.IH"[OF True])
    also have "\<dots> \<longleftrightarrow> valid \<and> (\<forall>k. i \<le> k \<and> k < length (robotParts e) \<longrightarrow>
                collide lib (robotParts e ! k) (environment e) = 0)"
      using True all_from_step[of i "length (robotParts e)"
          "\<lambda>k. collide lib (robotParts e ! k) (environment e) = 0"] by auto
    finally show ?thesis .
  next
    case False
    then show ?thesis
      by (subst isValid_env_loop.simps) auto
  qed
qed


lemma isValid_self_inner_valid:
  "fst (isValid_self_inner lib e i j valid tr) \<longleftrightarrow>
     valid \<and> (\<forall>k. j \<le> k \<and> k < length (robotParts e) \<longrightarrow>
                collide lib (robotParts e ! i) (robotParts e ! k) = 0)"
proof (induction lib e i j valid tr rule: isValid_self_inner.induct)
  case (1 lib e i j valid tr)
  show ?case
  proof (cases "j < length (robotParts e) \<and> valid")
    case True
    have "fst (isValid_self_inner lib e i j valid tr) =
          fst (isValid_self_inner lib e i (j + 1)
             (valid \<and> collide lib (robotParts e ! i) (robotParts e ! j) = 0)
             (tr @ [Collide (RobotPart i) (RobotPart j)]))"
      using True by (subst isValid_self_inner.simps) simp
    also have "\<dots> \<longleftrightarrow> (valid \<and> collide lib (robotParts e ! i) (robotParts e ! j) = 0) \<and>
        (\<forall>k. j + 1 \<le> k \<and> k < length (robotParts e) \<longrightarrow>
                collide lib (robotParts e ! i) (robotParts e ! k) = 0)"
      by (rule "1.IH"[OF True])
    also have "\<dots> \<longleftrightarrow> valid \<and> (\<forall>k. j \<le> k \<and> k < length (robotParts e) \<longrightarrow>
                collide lib (robotParts e ! i) (robotParts e ! k) = 0)"
      using True all_from_step[of j "length (robotParts e)"
          "\<lambda>k. collide lib (robotParts e ! i) (robotParts e ! k) = 0"] by auto
    finally show ?thesis .
  next
    case False
    then show ?thesis
      by (subst isValid_self_inner.simps) auto
  qed
qed

lemma isValid_self_outer_valid:
  "fst (isValid_self_outer lib e i valid tr) \<longleftrightarrow>
     valid \<and> (\<forall>a b. i \<le> a \<and> a < b \<and> b < length (robotParts e) \<longrightarrow>
                collide lib (robotParts e ! a) (robotParts e ! b) = 0)"
proof (induction lib e i valid tr rule: isValid_self_outer.induct)
  case (1 lib e i valid tr)
  let ?n = "length (robotParts e)"
  let ?P = "\<lambda>a. \<forall>b. a < b \<and> b < ?n \<longrightarrow> collide lib (robotParts e ! a) (robotParts e ! b) = 0"
  show ?case
  proof (cases "i < ?n \<and> valid")
    case True
    obtain v1 tr1 where inner: "isValid_self_inner lib e i (i + 1) valid tr = (v1, tr1)"
      by (cases "isValid_self_inner lib e i (i + 1) valid tr")
    have v1: "v1 \<longleftrightarrow> valid \<and> ?P i"
      using isValid_self_inner_valid[of lib e i "i + 1" valid tr] inner
      by (auto simp: Suc_le_eq)
    have "fst (isValid_self_outer lib e i valid tr) = fst (isValid_self_outer lib e (i + 1) v1 tr1)"
      using True inner by (subst isValid_self_outer.simps) simp
    also have "\<dots> \<longleftrightarrow> v1 \<and> (\<forall>a. i + 1 \<le> a \<and> a < ?n \<longrightarrow> ?P a)"
      using "1.IH"[OF True inner[symmetric]] by auto
    also have "\<dots> \<longleftrightarrow> valid \<and> (\<forall>a. i \<le> a \<and> a < ?n \<longrightarrow> ?P a)"
      using True v1 all_from_step[of i ?n ?P] by auto
    also have "\<dots> \<longleftrightarrow> valid \<and> (\<forall>a b. i \<le> a \<and> a < b \<and> b < ?n \<longrightarrow>
                collide lib (robotParts e ! a) (robotParts e ! b) = 0)"
      by (meson less_trans)
    finally show ?thesis .
  next
    case False
    then show ?thesis
      by (subst isValid_self_outer.simps) auto
  qed
qed

lemma isValid_valid:
  "fst (isValid lib e state) \<longleftrightarrow>
     (num_tris (environment e) = 0 \<or>
      (\<forall>i. i < length (robotParts e) \<longrightarrow> collide lib (posed_part e state i) (environment e) = 0)) \<and>
     (\<not> selfCollision e \<or>
      (\<forall>i j. i < j \<and> j < length (robotParts e) \<longrightarrow>
         collide lib (tested_part e state i) (tested_part e state j) = 0))"
proof (cases "num_tris (environment e) > 0")
  case True
  obtain e1 tr1 where tr: "transformRobot_loop e state 0 [] = (e1, tr1)"
    by (cases "transformRobot_loop e state 0 []")
  note fr = transformRobot_loop_frame[OF tr]
  have parts: "\<And>k. k < length (robotParts e) \<Longrightarrow> robotParts e1 ! k = posed_part e state k"
    using transformRobot_loop_parts[OF tr] by simp
  obtain v2 tr2 where env: "isValid_env_loop lib e1 0 True tr1 = (v2, tr2)"
    by (cases "isValid_env_loop lib e1 0 True tr1")
  have v2: "v2 \<longleftrightarrow> (\<forall>i. i < length (robotParts e) \<longrightarrow> collide lib (posed_part e state i) (environment e) = 0)"
    using isValid_env_loop_valid[of lib e1 0 True tr1] env fr parts by auto
  have self: "fst (isValid_self_outer lib e1 0 v2 tr2) \<longleftrightarrow>
      v2 \<and> (\<forall>i j. i < j \<and> j < length (robotParts e) \<longrightarrow>
         collide lib (posed_part e state i) (posed_part e state j) = 0)"
    unfolding isValid_self_outer_valid using fr parts by (auto simp: less_trans)
  show ?thesis
    using True tr env v2 self fr
    by (auto simp: isValid_def transformRobot_def tested_part_def split: prod.splits)
next
  case False
  have "fst (isValid lib e state) \<longleftrightarrow>
        (if selfCollision e then fst (isValid_self_outer lib e 0 True []) else True)"
    using False by (simp add: isValid_def split: prod.splits)
  then show ?thesis
    using False by (simp add: tested_part_def isValid_self_outer_valid)
qed

subsection \<open>An invariant of the continuous query\<close>

text \<open>
  A relation between the validity flag and the collision time that holds at the start
  and that every call of the time-of-impact routine keeps, holds of the result.
\<close>

lemma motion_env_loop_inv:
  "(\<And>a ma b mb t n t'.
      conservativeAdvancement lib a ma b mb t = (n, t') \<Longrightarrow> Inv True t \<Longrightarrow> Inv (n = 0) t') \<Longrightarrow>
   Inv valid ct \<Longrightarrow>
   isValid_motion_env_loop lib e s1 s2 i valid ct tr = (v, t, tr') \<Longrightarrow> Inv v t"
proof (induction lib e s1 s2 i valid ct tr rule: isValid_motion_env_loop.induct)
  case (1 lib e s1 s2 i valid ct tr)
  show ?case
  proof (cases "i < length (robotParts e) \<and> valid")
    case True
    let ?ca = "conservativeAdvancement lib (robotParts e ! i) (part_motion lib e s1 s2 i)
                 (environment e) InterpMotion_default ct"
    obtain n ct' where ca: "?ca = (n, ct')" by (cases ?ca)
    have next_call: "isValid_motion_env_loop lib e s1 s2 (i + 1) (valid \<and> n = 0) ct'
        (tr @ [PoseFromState i, PoseFromState i, ConservativeAdvancement (RobotPart i) Environment])
        = (v, t, tr')"
      using "1.prems"(3) True ca by (subst (asm) isValid_motion_env_loop.simps) simp
    have inv: "Inv (valid \<and> n = 0) ct'"
      using "1.prems"(1)[OF ca] "1.prems"(2) True by auto
    show ?thesis
      by (rule "1.IH"[OF True refl refl ca[symmetric] "1.prems"(1) inv next_call])
  next
    case False
    with "1.prems"(2,3) show ?thesis
      by (subst (asm) isValid_motion_env_loop.simps) auto
  qed
qed

lemma motion_self_inner_inv:
  "(\<And>a ma b mb t n t'.
      conservativeAdvancement lib a ma b mb t = (n, t') \<Longrightarrow> Inv True t \<Longrightarrow> Inv (n = 0) t') \<Longrightarrow>
   Inv valid ct \<Longrightarrow>
   isValid_motion_self_inner lib e s1 s2 i motion_i j valid ct tr = (v, t, tr') \<Longrightarrow> Inv v t"
proof (induction lib e s1 s2 i motion_i j valid ct tr rule: isValid_motion_self_inner.induct)
  case (1 lib e s1 s2 i motion_i j valid ct tr)
  show ?case
  proof (cases "j < length (robotParts e) \<and> valid")
    case True
    let ?ca = "conservativeAdvancement lib (robotParts e ! i) motion_i (robotParts e ! j)
                 (part_motion lib e s1 s2 j) ct"
    obtain n ct' where ca: "?ca = (n, ct')" by (cases ?ca)
    have next_call: "isValid_motion_self_inner lib e s1 s2 i motion_i (j + 1) (valid \<and> n = 0) ct'
        (tr @ [PoseFromState j, PoseFromState j,
               ConservativeAdvancement (RobotPart i) (RobotPart j)]) = (v, t, tr')"
      using "1.prems"(3) True ca by (subst (asm) isValid_motion_self_inner.simps) simp
    have inv: "Inv (valid \<and> n = 0) ct'"
      using "1.prems"(1)[OF ca] "1.prems"(2) True by auto
    show ?thesis
      by (rule "1.IH"[OF True refl ca[symmetric] "1.prems"(1) inv next_call])
  next
    case False
    with "1.prems"(2,3) show ?thesis
      by (subst (asm) isValid_motion_self_inner.simps) auto
  qed
qed

lemma motion_self_outer_inv:
  "(\<And>a ma b mb t n t'.
      conservativeAdvancement lib a ma b mb t = (n, t') \<Longrightarrow> Inv True t \<Longrightarrow> Inv (n = 0) t') \<Longrightarrow>
   Inv valid ct \<Longrightarrow>
   isValid_motion_self_outer lib e s1 s2 i valid ct tr = (v, t, tr') \<Longrightarrow> Inv v t"
proof (induction lib e s1 s2 i valid ct tr rule: isValid_motion_self_outer.induct)
  case (1 lib e s1 s2 i valid ct tr)
  show ?case
  proof (cases "i < length (robotParts e) \<and> valid")
    case True
    let ?inner = "isValid_motion_self_inner lib e s1 s2 i (part_motion lib e s1 s2 i) (i + 1)
                    valid ct (tr @ [PoseFromState i, PoseFromState i])"
    obtain v1 t1 tr1 where inner: "?inner = (v1, t1, tr1)" by (cases ?inner)
    have next_call: "isValid_motion_self_outer lib e s1 s2 (i + 1) v1 t1 tr1 = (v, t, tr')"
      using "1.prems"(3) True inner by (subst (asm) isValid_motion_self_outer.simps) simp
    have inv: "Inv v1 t1"
      by (rule motion_self_inner_inv[of lib Inv, OF "1.prems"(1,2) inner])
    show ?thesis
      by (rule "1.IH"[OF True refl inner[symmetric] refl "1.prems"(1) inv next_call])
  next
    case False
    with "1.prems"(2,3) show ?thesis
      by (subst (asm) isValid_motion_self_outer.simps) auto
  qed
qed

lemma isValid_motion_inv:
  assumes step: "\<And>a ma b mb t n t'.
      conservativeAdvancement lib a ma b mb t = (n, t') \<Longrightarrow> Inv True t \<Longrightarrow> Inv (n = 0) t'"
    and init: "Inv True 1"
  shows "Inv (fst (isValid_motion lib e s1 s2)) (fst (snd (isValid_motion lib e s1 s2)))"
proof -
  let ?env = "if num_tris (environment e) > 0
              then isValid_motion_env_loop lib e s1 s2 0 True 1 [] else (True, 1, [])"
  obtain v1 t1 tr1 where env: "?env = (v1, t1, tr1)" by (cases ?env)
  have inv1: "Inv v1 t1"
  proof (cases "num_tris (environment e) > 0")
    case True
    with env have "isValid_motion_env_loop lib e s1 s2 0 True 1 [] = (v1, t1, tr1)" by simp
    from motion_env_loop_inv[of lib Inv, OF step init this] show ?thesis .
  next
    case False
    with env init show ?thesis by simp
  qed
  show ?thesis
  proof (cases "selfCollision e \<and> v1")
    case True
    let ?self = "isValid_motion_self_outer lib e s1 s2 0 v1 t1 tr1"
    obtain v2 t2 tr2 where self: "?self = (v2, t2, tr2)" by (cases ?self)
    have res: "isValid_motion lib e s1 s2 = (v2, t2, e, tr2)"
      using env True self unfolding isValid_motion_def by simp
    from motion_self_outer_inv[of lib Inv, OF step inv1 self] res
    show ?thesis by simp
  next
    case False
    have res: "isValid_motion lib e s1 s2 = (v1, t1, e, tr1)"
      using env False unfolding isValid_motion_def by auto
    with inv1 show ?thesis by simp
  qed
qed

section \<open>The example inputs, evaluated\<close>

lemmas construction_defs = FCLMethodWrapper_new_def configure_def getFCLModelFromScenes_def
  getFCLModelFromScene_def scene_points_def vec_sub_def scenes_loop.simps triangles_loop.simps
  configure_robot_loop.simps Let_def

lemmas example_defs = one_part_engine_def two_part_engine_def no_robot_engine_def free_engine_def
  point_lib_def touching_def placed_points_def unit_triangle_def far_triangle_def open_quad_def
  addSubModel_def beginModel_def zero_vec_def identity_quat_def translation_pose_def
  part_state_def rest_state_def near_state_def hit_state_def apart_state_def num_tris_def
  part_motion_def setTransform_def

lemma two_part_engine_built:
  "FCLMethodWrapper_new NDEBUG scene_points two_part_geom part_state True translation_pose =
     Inr two_part_engine"
  by (simp add: construction_defs two_part_geom_def example_defs)

lemma one_part_engine_built:
  "FCLMethodWrapper_new NDEBUG scene_points one_part_geom part_state False translation_pose =
     Inr one_part_engine"
  by (simp add: construction_defs one_part_geom_def example_defs)

lemma no_robot_engine_built:
  "FCLMethodWrapper_new NDEBUG scene_points no_robot_geom part_state False translation_pose =
     Inr no_robot_engine"
  by (simp add: construction_defs no_robot_geom_def example_defs)


lemma point_lib_keeps_time: "no_contact_keeps_time point_lib"
  by (simp add: no_contact_keeps_time_def point_lib_def)

lemma point_lib_in_range: "contact_time_in_range point_lib"
  by (simp add: contact_time_in_range_def point_lib_def)

lemma near_motion:
  "isValid_motion point_lib one_part_engine rest_state near_state =
     (True, 1, one_part_engine,
      [PoseFromState 0, PoseFromState 0, ConservativeAdvancement (RobotPart 0) Environment])"
  by (simp add: isValid_motion_def isValid_motion_env_loop.simps Let_def example_defs)

lemma hit_motion:
  "isValid_motion point_lib one_part_engine rest_state hit_state =
     (False, 1 / 2, one_part_engine,
      [PoseFromState 0, PoseFromState 0, ConservativeAdvancement (RobotPart 0) Environment])"
  by (simp add: isValid_motion_def isValid_motion_env_loop.simps Let_def example_defs)

section \<open>Claims\<close>

subsection \<open>The discrete query\<close>

text \<open>
  What the discrete query computes. It is valid exactly when (a) the
  environment is empty or no part, posed at the state, meets the environment, and (b)
  self-collision checking is off or no pair \<open>i < j\<close> of parts meets, the parts taken as
  \<open>tested_part\<close> gives them: posed at the state only when the environment has triangles.
  Short-circuiting does not show in the result.
\<close>

lemma isValid_characterisation:
  "fst (isValid lib e state) \<longleftrightarrow>
     (num_tris (environment e) = 0 \<or>
      (\<forall>i. i < length (robotParts e) \<longrightarrow>
         collide lib (posed_part e state i) (environment e) = 0)) \<and>
     (\<not> selfCollision e \<or>
      (\<forall>i j. i < j \<and> j < length (robotParts e) \<longrightarrow>
         collide lib (tested_part e state i) (tested_part e state j) = 0))"
  by (rule isValid_valid)

text \<open>
  Claim C1 at an input where the code departs from it. The engine is built from two
  copies of one triangle and no obstacle, with self-collision checking on. The state
  puts the second part five units away, so that the parts, posed at the state, do not meet
  and the claim makes the state valid. The query never calls \<^verbatim>\<open>transformRobot\<close>
  for an empty environment: it tests the parts at the identity poses they were built
  with, where they coincide, and returns false, whatever the state.
\<close>

theorem isValid_self_collision_stale_pose:
  "(\<forall>NDEBUG. FCLMethodWrapper_new NDEBUG scene_points two_part_geom part_state True
      translation_pose = Inr two_part_engine) \<and>
   num_tris (environment two_part_engine) = 0 \<and>
   selfCollision two_part_engine \<and>
   length (robotParts two_part_engine) = 2 \<and>
   collide point_lib (posed_part two_part_engine apart_state 0)
     (posed_part two_part_engine apart_state 1) = 0 \<and>
   fst (isValid point_lib two_part_engine apart_state) = False \<and>
   fst (snd (isValid point_lib two_part_engine apart_state)) = two_part_engine"
proof -
  have built: "\<forall>NDEBUG. FCLMethodWrapper_new NDEBUG scene_points two_part_geom part_state True
      translation_pose = Inr two_part_engine"
    by (simp add: two_part_engine_built)
  have shape: "num_tris (environment two_part_engine) = 0 \<and> selfCollision two_part_engine \<and>
      length (robotParts two_part_engine) = 2"
    by (simp add: two_part_engine_def num_tris_def beginModel_def)
  have apart: "collide point_lib (posed_part two_part_engine apart_state 0)
     (posed_part two_part_engine apart_state 1) = 0"
    by (simp add: posed_part_def example_defs)
  have run: "isValid point_lib two_part_engine apart_state =
      (False, two_part_engine, [Collide (RobotPart 0) (RobotPart 1)])"
    by (simp add: isValid_def isValid_self_outer.simps isValid_self_inner.simps example_defs)
  from built shape apart run show ?thesis by simp
qed

text \<open>
  Claim C2. With an environment of zero triangles and self-collision checking off, the
  discrete query returns true for every state and every library, and it gets there
  without a single call: the trace is empty (no pose callback, no pose write, no
  intersection test) and the engine is as it was.
\<close>

theorem isValid_empty_environment:
  assumes "num_tris (environment e) = 0" and "\<not> selfCollision e"
  shows "isValid lib e state = (True, e, [])"
  using assms by (simp add: isValid_def)

theorem isValid_empty_environment_witness:
  "num_tris (environment free_engine) = 0 \<and> \<not> selfCollision free_engine \<and>
   isValid point_lib free_engine hit_state = (True, free_engine, [])"
proof -
  have empty: "num_tris (environment free_engine) = 0"
    by (simp add: free_engine_def num_tris_def beginModel_def)
  have off: "\<not> selfCollision free_engine"
    by (simp add: free_engine_def)
  from isValid_empty_environment[OF empty off, of point_lib hit_state] empty off
  show ?thesis by simp
qed

subsection \<open>The continuous query\<close>

text \<open>
  Claim C3. If the continuous query returns true, the collision time it leaves is 1.0:
  it is set to 1.0 at the start, and a call of the time-of-impact routine that reports
  no contact does not move it from there (\<open>no_contact_keeps_time\<close>, the contract of
  the library routine that the code relies on).
\<close>

theorem isValid_motion_valid_time:
  assumes "no_contact_keeps_time lib"
    and "fst (isValid_motion lib e s1 s2)"
  shows "fst (snd (isValid_motion lib e s1 s2)) = 1"
proof -
  have "fst (isValid_motion lib e s1 s2) \<longrightarrow> fst (snd (isValid_motion lib e s1 s2)) = 1"
  proof (rule isValid_motion_inv[of lib "\<lambda>v t. v \<longrightarrow> t = 1"])
    fix a ma b mb t n t'
    assume "conservativeAdvancement lib a ma b mb t = (n, t')" and "True \<longrightarrow> t = 1"
    with assms(1) show "n = 0 \<longrightarrow> t' = 1"
      unfolding no_contact_keeps_time_def by (metis fst_conv snd_conv)
  qed simp
  with assms(2) show ?thesis by simp
qed

theorem isValid_motion_valid_time_witness:
  "no_contact_keeps_time point_lib \<and>
   fst (isValid_motion point_lib one_part_engine rest_state near_state) \<and>
   fst (snd (isValid_motion point_lib one_part_engine rest_state near_state)) = 1"
proof -
  have valid: "fst (isValid_motion point_lib one_part_engine rest_state near_state)"
    by (simp add: near_motion)
  from isValid_motion_valid_time[OF point_lib_keeps_time valid] point_lib_keeps_time valid
  show ?thesis by simp
qed

text \<open>
  Claim C4. If the continuous query returns false, the collision time it leaves lies in
  \<open>[0, 1)\<close>: the query stops at the first call of the time-of-impact routine that reports
  a contact, and such a call leaves a time in that range (\<open>contact_time_in_range\<close>, the
  contract of the library routine that the header comment of the query states).
\<close>

theorem isValid_motion_invalid_time:
  assumes "contact_time_in_range lib"
    and "\<not> fst (isValid_motion lib e s1 s2)"
  shows "0 \<le> fst (snd (isValid_motion lib e s1 s2)) \<and> fst (snd (isValid_motion lib e s1 s2)) < 1"
proof -
  have "\<not> fst (isValid_motion lib e s1 s2) \<longrightarrow>
        0 \<le> fst (snd (isValid_motion lib e s1 s2)) \<and> fst (snd (isValid_motion lib e s1 s2)) < 1"
  proof (rule isValid_motion_inv[of lib "\<lambda>v t. \<not> v \<longrightarrow> 0 \<le> t \<and> t < 1"])
    fix a ma b mb t n t'
    assume "conservativeAdvancement lib a ma b mb t = (n, t')"
    with assms(1) show "n \<noteq> 0 \<longrightarrow> 0 \<le> t' \<and> t' < 1"
      unfolding contact_time_in_range_def by (metis fst_conv snd_conv)
  qed simp
  with assms(2) show ?thesis by simp
qed

theorem isValid_motion_invalid_time_witness:
  "contact_time_in_range point_lib \<and>
   \<not> fst (isValid_motion point_lib one_part_engine rest_state hit_state) \<and>
   0 \<le> fst (snd (isValid_motion point_lib one_part_engine rest_state hit_state)) \<and>
   fst (snd (isValid_motion point_lib one_part_engine rest_state hit_state)) < 1"
proof -
  have invalid: "\<not> fst (isValid_motion point_lib one_part_engine rest_state hit_state)"
    by (simp add: hit_motion)
  from isValid_motion_invalid_time[OF point_lib_in_range invalid] point_lib_in_range invalid
  show ?thesis by simp
qed

lemma motion_env_loop_writes:
  "isValid_motion_env_loop lib e s1 s2 i valid ct tr = (v, t, tr') \<Longrightarrow>
   filter is_pose_write tr' = filter is_pose_write tr"
proof (induction lib e s1 s2 i valid ct tr rule: isValid_motion_env_loop.induct)
  case (1 lib e s1 s2 i valid ct tr)
  show ?case
  proof (cases "i < length (robotParts e) \<and> valid")
    case True
    let ?ca = "conservativeAdvancement lib (robotParts e ! i) (part_motion lib e s1 s2 i)
                 (environment e) InterpMotion_default ct"
    obtain n ct' where ca: "?ca = (n, ct')" by (cases ?ca)
    have next_call: "isValid_motion_env_loop lib e s1 s2 (i + 1) (valid \<and> n = 0) ct'
        (tr @ [PoseFromState i, PoseFromState i, ConservativeAdvancement (RobotPart i) Environment])
        = (v, t, tr')"
      using "1.prems" True ca by (subst (asm) isValid_motion_env_loop.simps) simp
    from "1.IH"[OF True refl refl ca[symmetric] next_call] show ?thesis by simp
  next
    case False
    with "1.prems" show ?thesis
      by (subst (asm) isValid_motion_env_loop.simps) auto
  qed
qed

lemma motion_self_inner_writes:
  "isValid_motion_self_inner lib e s1 s2 i motion_i j valid ct tr = (v, t, tr') \<Longrightarrow>
   filter is_pose_write tr' = filter is_pose_write tr"
proof (induction lib e s1 s2 i motion_i j valid ct tr rule: isValid_motion_self_inner.induct)
  case (1 lib e s1 s2 i motion_i j valid ct tr)
  show ?case
  proof (cases "j < length (robotParts e) \<and> valid")
    case True
    let ?ca = "conservativeAdvancement lib (robotParts e ! i) motion_i (robotParts e ! j)
                 (part_motion lib e s1 s2 j) ct"
    obtain n ct' where ca: "?ca = (n, ct')" by (cases ?ca)
    have next_call: "isValid_motion_self_inner lib e s1 s2 i motion_i (j + 1) (valid \<and> n = 0) ct'
        (tr @ [PoseFromState j, PoseFromState j,
               ConservativeAdvancement (RobotPart i) (RobotPart j)]) = (v, t, tr')"
      using "1.prems" True ca by (subst (asm) isValid_motion_self_inner.simps) simp
    from "1.IH"[OF True refl ca[symmetric] next_call] show ?thesis by simp
  next
    case False
    with "1.prems" show ?thesis
      by (subst (asm) isValid_motion_self_inner.simps) auto
  qed
qed

lemma motion_self_outer_writes:
  "isValid_motion_self_outer lib e s1 s2 i valid ct tr = (v, t, tr') \<Longrightarrow>
   filter is_pose_write tr' = filter is_pose_write tr"
proof (induction lib e s1 s2 i valid ct tr rule: isValid_motion_self_outer.induct)
  case (1 lib e s1 s2 i valid ct tr)
  show ?case
  proof (cases "i < length (robotParts e) \<and> valid")
    case True
    let ?inner = "isValid_motion_self_inner lib e s1 s2 i (part_motion lib e s1 s2 i) (i + 1)
                    valid ct (tr @ [PoseFromState i, PoseFromState i])"
    obtain v1 t1 tr1 where inner: "?inner = (v1, t1, tr1)" by (cases ?inner)
    have next_call: "isValid_motion_self_outer lib e s1 s2 (i + 1) v1 t1 tr1 = (v, t, tr')"
      using "1.prems" True inner by (subst (asm) isValid_motion_self_outer.simps) simp
    have "filter is_pose_write tr1 = filter is_pose_write tr"
      using motion_self_inner_writes[OF inner] by simp
    with "1.IH"[OF True refl inner[symmetric] refl next_call] show ?thesis by simp
  next
    case False
    with "1.prems" show ?thesis
      by (subst (asm) isValid_motion_self_outer.simps) auto
  qed
qed

text \<open>
  The continuous query returns the engine it was given, and its trace holds no write of a
  scratch pose.
\<close>

lemma isValid_motion_unchanged:
  "fst (snd (snd (isValid_motion lib e s1 s2))) = e \<and>
   filter is_pose_write (snd (snd (snd (isValid_motion lib e s1 s2)))) = []"
proof -
  let ?env = "if num_tris (environment e) > 0
              then isValid_motion_env_loop lib e s1 s2 0 True 1 [] else (True, 1, [])"
  obtain v1 t1 tr1 where env: "?env = (v1, t1, tr1)" by (cases ?env)
  have w1: "filter is_pose_write tr1 = []"
  proof (cases "num_tris (environment e) > 0")
    case True
    with env have "isValid_motion_env_loop lib e s1 s2 0 True 1 [] = (v1, t1, tr1)" by simp
    from motion_env_loop_writes[OF this] show ?thesis by simp
  next
    case False
    with env show ?thesis by auto
  qed
  show ?thesis
  proof (cases "selfCollision e \<and> v1")
    case True
    let ?self = "isValid_motion_self_outer lib e s1 s2 0 v1 t1 tr1"
    obtain v2 t2 tr2 where self: "?self = (v2, t2, tr2)" by (cases ?self)
    have res: "isValid_motion lib e s1 s2 = (v2, t2, e, tr2)"
      using env True self unfolding isValid_motion_def by simp
    from motion_self_outer_writes[OF self] w1 res show ?thesis by simp
  next
    case False
    have res: "isValid_motion lib e s1 s2 = (v1, t1, e, tr1)"
      using env False unfolding isValid_motion_def by auto
    with w1 show ?thesis by simp
  qed
qed

text \<open>
  The continuous query gives the library the part models with the poses stored on them.
  For a library that does not read those poses, the query computes the same on two
  engines that differ in them only, and the discrete and the clearance query leave
  such an engine.
\<close>

lemma same_geometry_refl: "same_geometry a a"
  by (simp add: same_geometry_def)

lemma same_geometry_setTransform: "same_geometry (setTransform m q t) m"
  by (simp add: same_geometry_def setTransform_def)

lemma same_up_to_poses_refl: "same_up_to_poses e e"
  by (simp add: same_up_to_poses_def list_all2_conv_all_nth same_geometry_refl)

lemma same_up_to_poses_length:
  "same_up_to_poses e' e \<Longrightarrow> length (robotParts e') = length (robotParts e)"
  by (auto simp: same_up_to_poses_def dest: list_all2_lengthD)

lemma same_up_to_poses_part:
  "same_up_to_poses e' e \<Longrightarrow> i < length (robotParts e) \<Longrightarrow>
   same_geometry (robotParts e' ! i) (robotParts e ! i)"
  by (simp add: same_up_to_poses_def list_all2_conv_all_nth)

lemma same_up_to_poses_motion:
  "same_up_to_poses e' e \<Longrightarrow> part_motion lib e' s1 s2 i = part_motion lib e s1 s2 i"
  by (simp add: same_up_to_poses_def part_motion_def)

lemma transformRobot_same_up_to_poses:
  assumes "transformRobot_loop e state 0 tr = (e', tr')"
  shows "same_up_to_poses e' e"
proof -
  note fr = transformRobot_loop_frame[OF assms]
  have "same_geometry (robotParts e' ! k) (robotParts e ! k)" if "k < length (robotParts e)" for k
    using transformRobot_loop_parts[OF assms that]
    by (simp add: posed_part_def same_geometry_setTransform split: prod.splits)
  with fr show ?thesis
    by (simp add: same_up_to_poses_def list_all2_conv_all_nth)
qed

lemma isValid_same_up_to_poses: "same_up_to_poses (fst (snd (isValid lib e state))) e"
proof (cases "num_tris (environment e) > 0")
  case True
  obtain e1 tr1 where tr: "transformRobot_loop e state 0 [] = (e1, tr1)"
    by (cases "transformRobot_loop e state 0 []")
  have "fst (snd (isValid lib e state)) = e1"
    using True tr by (simp add: isValid_def transformRobot_def split: prod.splits)
  with transformRobot_same_up_to_poses[OF tr] show ?thesis by simp
next
  case False
  then have "fst (snd (isValid lib e state)) = e"
    by (simp add: isValid_def split: prod.splits)
  then show ?thesis by (simp add: same_up_to_poses_refl)
qed

lemma clearance_same_up_to_poses: "same_up_to_poses (fst (snd (clearance lib e state))) e"
proof (cases "num_tris (environment e) > 0")
  case True
  obtain e1 tr1 where tr: "transformRobot_loop e state 0 [] = (e1, tr1)"
    by (cases "transformRobot_loop e state 0 []")
  have "fst (snd (clearance lib e state)) = e1"
    using True tr by (simp add: clearance_def transformRobot_def split: prod.splits)
  with transformRobot_same_up_to_poses[OF tr] show ?thesis by simp
next
  case False
  then have "fst (snd (clearance lib e state)) = e"
    by (simp add: clearance_def)
  then show ?thesis by (simp add: same_up_to_poses_refl)
qed

lemma motion_env_loop_poses:
  "advancement_ignores_pose lib \<Longrightarrow> same_up_to_poses e' e \<Longrightarrow>
   isValid_motion_env_loop lib e' s1 s2 i valid ct tr =
   isValid_motion_env_loop lib e s1 s2 i valid ct tr"
proof (induction lib e s1 s2 i valid ct tr rule: isValid_motion_env_loop.induct)
  case (1 lib e s1 s2 i valid ct tr)
  note len = same_up_to_poses_length[OF "1.prems"(2)]
  have env: "environment e' = environment e"
    using "1.prems"(2) by (simp add: same_up_to_poses_def)
  show ?case
  proof (cases "i < length (robotParts e) \<and> valid")
    case True
    let ?ca = "conservativeAdvancement lib (robotParts e ! i) (part_motion lib e s1 s2 i)
                 (environment e) InterpMotion_default ct"
    obtain n ct' where ca: "?ca = (n, ct')" by (cases ?ca)
    have ca': "conservativeAdvancement lib (robotParts e' ! i) (part_motion lib e' s1 s2 i)
                 (environment e') InterpMotion_default ct = (n, ct')"
      using "1.prems"(1) same_up_to_poses_part[OF "1.prems"(2), of i] True ca env
        same_up_to_poses_motion[OF "1.prems"(2), of lib s1 s2 i] same_geometry_refl[of "environment e"]
      unfolding advancement_ignores_pose_def by metis
    let ?tr = "tr @ [PoseFromState i, PoseFromState i,
                     ConservativeAdvancement (RobotPart i) Environment]"
    have "isValid_motion_env_loop lib e' s1 s2 i valid ct tr =
          isValid_motion_env_loop lib e' s1 s2 (i + 1) (valid \<and> n = 0) ct' ?tr"
      using True len ca' by (intro trans[OF isValid_motion_env_loop.simps]) (simp add: Let_def)
    also have "\<dots> = isValid_motion_env_loop lib e s1 s2 (i + 1) (valid \<and> n = 0) ct' ?tr"
      by (rule "1.IH"[OF True refl refl ca[symmetric] "1.prems"])
    also have "\<dots> = isValid_motion_env_loop lib e s1 s2 i valid ct tr"
      using True ca by (intro trans[OF _ isValid_motion_env_loop.simps[symmetric]]) (simp add: Let_def)
    finally show ?thesis .
  next
    case False
    have "isValid_motion_env_loop lib e' s1 s2 i valid ct tr = (valid, ct, tr)"
      using False len by (subst isValid_motion_env_loop.simps) auto
    moreover have "isValid_motion_env_loop lib e s1 s2 i valid ct tr = (valid, ct, tr)"
      using False by (subst isValid_motion_env_loop.simps) auto
    ultimately show ?thesis by simp
  qed
qed

lemma motion_self_inner_poses:
  "advancement_ignores_pose lib \<Longrightarrow> same_up_to_poses e' e \<Longrightarrow> i < length (robotParts e) \<Longrightarrow>
   isValid_motion_self_inner lib e' s1 s2 i motion_i j valid ct tr =
   isValid_motion_self_inner lib e s1 s2 i motion_i j valid ct tr"
proof (induction lib e s1 s2 i motion_i j valid ct tr rule: isValid_motion_self_inner.induct)
  case (1 lib e s1 s2 i motion_i j valid ct tr)
  note len = same_up_to_poses_length[OF "1.prems"(2)]
  show ?case
  proof (cases "j < length (robotParts e) \<and> valid")
    case True
    let ?ca = "conservativeAdvancement lib (robotParts e ! i) motion_i (robotParts e ! j)
                 (part_motion lib e s1 s2 j) ct"
    obtain n ct' where ca: "?ca = (n, ct')" by (cases ?ca)
    have ca': "conservativeAdvancement lib (robotParts e' ! i) motion_i (robotParts e' ! j)
                 (part_motion lib e' s1 s2 j) ct = (n, ct')"
      using "1.prems"(1) same_up_to_poses_part[OF "1.prems"(2,3)]
        same_up_to_poses_part[OF "1.prems"(2), of j] True ca
        same_up_to_poses_motion[OF "1.prems"(2), of lib s1 s2 j]
      unfolding advancement_ignores_pose_def by metis
    let ?tr = "tr @ [PoseFromState j, PoseFromState j,
                     ConservativeAdvancement (RobotPart i) (RobotPart j)]"
    have "isValid_motion_self_inner lib e' s1 s2 i motion_i j valid ct tr =
          isValid_motion_self_inner lib e' s1 s2 i motion_i (j + 1) (valid \<and> n = 0) ct' ?tr"
      using True len ca' by (intro trans[OF isValid_motion_self_inner.simps]) (simp add: Let_def)
    also have "\<dots> = isValid_motion_self_inner lib e s1 s2 i motion_i (j + 1) (valid \<and> n = 0) ct' ?tr"
      by (rule "1.IH"[OF True refl ca[symmetric] "1.prems"])
    also have "\<dots> = isValid_motion_self_inner lib e s1 s2 i motion_i j valid ct tr"
      using True ca
      by (intro trans[OF _ isValid_motion_self_inner.simps[symmetric]]) (simp add: Let_def)
    finally show ?thesis .
  next
    case False
    have "isValid_motion_self_inner lib e' s1 s2 i motion_i j valid ct tr = (valid, ct, tr)"
      using False len by (subst isValid_motion_self_inner.simps) auto
    moreover have "isValid_motion_self_inner lib e s1 s2 i motion_i j valid ct tr = (valid, ct, tr)"
      using False by (subst isValid_motion_self_inner.simps) auto
    ultimately show ?thesis by simp
  qed
qed

lemma motion_self_outer_poses:
  "advancement_ignores_pose lib \<Longrightarrow> same_up_to_poses e' e \<Longrightarrow>
   isValid_motion_self_outer lib e' s1 s2 i valid ct tr =
   isValid_motion_self_outer lib e s1 s2 i valid ct tr"
proof (induction lib e s1 s2 i valid ct tr rule: isValid_motion_self_outer.induct)
  case (1 lib e s1 s2 i valid ct tr)
  note len = same_up_to_poses_length[OF "1.prems"(2)]
  show ?case
  proof (cases "i < length (robotParts e) \<and> valid")
    case True
    let ?tr = "tr @ [PoseFromState i, PoseFromState i]"
    let ?inner = "isValid_motion_self_inner lib e s1 s2 i (part_motion lib e s1 s2 i) (i + 1)
                    valid ct ?tr"
    obtain v1 t1 tr1 where inner: "?inner = (v1, t1, tr1)" by (cases ?inner)
    have inner': "isValid_motion_self_inner lib e' s1 s2 i (part_motion lib e' s1 s2 i) (i + 1)
                    valid ct ?tr = (v1, t1, tr1)"
      using motion_self_inner_poses[OF "1.prems", of i s1 s2 "part_motion lib e s1 s2 i" "i + 1"
          valid ct ?tr] True inner same_up_to_poses_motion[OF "1.prems"(2), of lib s1 s2 i]
      by simp
    have "isValid_motion_self_outer lib e' s1 s2 i valid ct tr =
          isValid_motion_self_outer lib e' s1 s2 (i + 1) v1 t1 tr1"
      using True len inner' by (intro trans[OF isValid_motion_self_outer.simps]) (simp add: Let_def)
    also have "\<dots> = isValid_motion_self_outer lib e s1 s2 (i + 1) v1 t1 tr1"
      by (rule "1.IH"[OF True refl inner[symmetric] refl "1.prems"])
    also have "\<dots> = isValid_motion_self_outer lib e s1 s2 i valid ct tr"
      using True inner
      by (intro trans[OF _ isValid_motion_self_outer.simps[symmetric]]) (simp add: Let_def)
    finally show ?thesis .
  next
    case False
    have "isValid_motion_self_outer lib e' s1 s2 i valid ct tr = (valid, ct, tr)"
      using False len by (subst isValid_motion_self_outer.simps) auto
    moreover have "isValid_motion_self_outer lib e s1 s2 i valid ct tr = (valid, ct, tr)"
      using False by (subst isValid_motion_self_outer.simps) auto
    ultimately show ?thesis by simp
  qed
qed

lemma isValid_motion_poses:
  assumes "advancement_ignores_pose lib" and "same_up_to_poses e' e"
  shows "fst (isValid_motion lib e' s1 s2) = fst (isValid_motion lib e s1 s2) \<and>
         fst (snd (isValid_motion lib e' s1 s2)) = fst (snd (isValid_motion lib e s1 s2)) \<and>
         snd (snd (snd (isValid_motion lib e' s1 s2))) = snd (snd (snd (isValid_motion lib e s1 s2)))"
proof -
  have env: "environment e' = environment e" and self: "selfCollision e' = selfCollision e"
    using assms(2) by (simp_all add: same_up_to_poses_def)
  show ?thesis
    by (simp add: isValid_motion_def env self motion_env_loop_poses[OF assms]
        motion_self_outer_poses[OF assms] split: prod.splits)
qed

text \<open>In contrast, the discrete query on a non-empty environment overwrites the poses.\<close>

lemma isValid_writes_poses:
  "isValid point_lib one_part_engine near_state =
     (True,
      one_part_engine\<lparr>robotParts :=
         [setTransform (robotParts one_part_engine ! 0) identity_quat (1, 0, 0)]\<rparr>,
      [PoseFromState 0, SetTransform 0, Collide (RobotPart 0) Environment])"
  by (simp add: isValid_def transformRobot_def transformRobot_loop.simps isValid_env_loop.simps
      example_defs)

text \<open>
  Claim C8. The continuous query returns the engine it was given, field for field, and
  its trace holds no write of a scratch pose: the only calls are the pose callbacks, whose
  results go into the local motions, and the time-of-impact routine. The poses it uses
  are those of the motions: for a time-of-impact routine that does not read the poses
  stored on the models (\<open>advancement_ignores_pose\<close>), validity, collision time and trace
  are the same on every engine that differs in the stored poses only, so also after any
  discrete or clearance query.
\<close>

theorem isValid_motion_frame:
  "fst (snd (snd (isValid_motion lib e s1 s2))) = e \<and>
   filter is_pose_write (snd (snd (snd (isValid_motion lib e s1 s2)))) = [] \<and>
   (advancement_ignores_pose lib \<and> same_up_to_poses e' e \<longrightarrow>
      fst (isValid_motion lib e' s1 s2) = fst (isValid_motion lib e s1 s2) \<and>
      fst (snd (isValid_motion lib e' s1 s2)) = fst (snd (isValid_motion lib e s1 s2)) \<and>
      snd (snd (snd (isValid_motion lib e' s1 s2))) =
        snd (snd (snd (isValid_motion lib e s1 s2)))) \<and>
   (advancement_ignores_pose lib \<longrightarrow>
      fst (isValid_motion lib (fst (snd (isValid lib' e state))) s1 s2) =
        fst (isValid_motion lib e s1 s2) \<and>
      fst (snd (isValid_motion lib (fst (snd (isValid lib' e state))) s1 s2)) =
        fst (snd (isValid_motion lib e s1 s2)) \<and>
      fst (isValid_motion lib (fst (snd (clearance lib' e state))) s1 s2) =
        fst (isValid_motion lib e s1 s2) \<and>
      fst (snd (isValid_motion lib (fst (snd (clearance lib' e state))) s1 s2)) =
        fst (snd (isValid_motion lib e s1 s2)))"
proof -
  note frame = isValid_motion_unchanged[of lib e s1 s2]
  have poses: "advancement_ignores_pose lib \<and> same_up_to_poses e' e \<longrightarrow>
      fst (isValid_motion lib e' s1 s2) = fst (isValid_motion lib e s1 s2) \<and>
      fst (snd (isValid_motion lib e' s1 s2)) = fst (snd (isValid_motion lib e s1 s2)) \<and>
      snd (snd (snd (isValid_motion lib e' s1 s2))) =
        snd (snd (snd (isValid_motion lib e s1 s2)))"
    using isValid_motion_poses[of lib e' e s1 s2] by blast
  have after: "advancement_ignores_pose lib \<longrightarrow>
      fst (isValid_motion lib (fst (snd (isValid lib' e state))) s1 s2) =
        fst (isValid_motion lib e s1 s2) \<and>
      fst (snd (isValid_motion lib (fst (snd (isValid lib' e state))) s1 s2)) =
        fst (snd (isValid_motion lib e s1 s2)) \<and>
      fst (isValid_motion lib (fst (snd (clearance lib' e state))) s1 s2) =
        fst (isValid_motion lib e s1 s2) \<and>
      fst (snd (isValid_motion lib (fst (snd (clearance lib' e state))) s1 s2)) =
        fst (snd (isValid_motion lib e s1 s2))"
  proof
    assume ign: "advancement_ignores_pose lib"
    from isValid_motion_poses[OF ign isValid_same_up_to_poses[of lib' e state], of s1 s2]
      isValid_motion_poses[OF ign clearance_same_up_to_poses[of lib' e state], of s1 s2]
    show "fst (isValid_motion lib (fst (snd (isValid lib' e state))) s1 s2) =
        fst (isValid_motion lib e s1 s2) \<and>
      fst (snd (isValid_motion lib (fst (snd (isValid lib' e state))) s1 s2)) =
        fst (snd (isValid_motion lib e s1 s2)) \<and>
      fst (isValid_motion lib (fst (snd (clearance lib' e state))) s1 s2) =
        fst (isValid_motion lib e s1 s2) \<and>
      fst (snd (isValid_motion lib (fst (snd (clearance lib' e state))) s1 s2)) =
        fst (snd (isValid_motion lib e s1 s2))"
      by simp
  qed
  from frame poses after show ?thesis by blast
qed

lemma point_lib_ignores_pose: "advancement_ignores_pose point_lib"
  by (simp add: advancement_ignores_pose_def same_geometry_def point_lib_def placed_points_def)

theorem isValid_motion_frame_witness:
  "advancement_ignores_pose point_lib \<and>
   same_up_to_poses (fst (snd (isValid point_lib one_part_engine near_state))) one_part_engine \<and>
   fst (snd (isValid point_lib one_part_engine near_state)) \<noteq> one_part_engine \<and>
   fst (isValid_motion point_lib (fst (snd (isValid point_lib one_part_engine near_state)))
     rest_state hit_state) = False \<and>
   fst (snd (isValid_motion point_lib (fst (snd (isValid point_lib one_part_engine near_state)))
     rest_state hit_state)) = 1 / 2 \<and>
   fst (isValid_motion point_lib one_part_engine rest_state hit_state) = False \<and>
   fst (snd (isValid_motion point_lib one_part_engine rest_state hit_state)) = 1 / 2 \<and>
   fst (snd (snd (isValid_motion point_lib one_part_engine rest_state hit_state))) =
     one_part_engine"
proof -
  let ?e' = "fst (snd (isValid point_lib one_part_engine near_state))"
  have same: "same_up_to_poses ?e' one_part_engine"
    by (rule isValid_same_up_to_poses)
  have moved: "?e' \<noteq> one_part_engine"
  proof
    assume "?e' = one_part_engine"
    then have "pose_translation (robotParts ?e' ! 0) =
        pose_translation (robotParts one_part_engine ! 0)" by simp
    then show False
      by (simp add: isValid_writes_poses) (simp add: example_defs)
  qed
  note th = isValid_motion_frame[of point_lib one_part_engine rest_state hit_state ?e']
  from th point_lib_ignores_pose same
  have "fst (isValid_motion point_lib ?e' rest_state hit_state) =
      fst (isValid_motion point_lib one_part_engine rest_state hit_state) \<and>
    fst (snd (isValid_motion point_lib ?e' rest_state hit_state)) =
      fst (snd (isValid_motion point_lib one_part_engine rest_state hit_state))"
    by blast
  moreover from th have "fst (snd (snd (isValid_motion point_lib one_part_engine rest_state
      hit_state))) = one_part_engine"
    by blast
  ultimately show ?thesis
    using point_lib_ignores_pose same moved by (simp add: hit_motion)
qed

subsection \<open>Self-collision checking on a robot of at most one part\<close>

lemma posed_part_selfCollision:
  "posed_part (e\<lparr>selfCollision := b\<rparr>) state i = posed_part e state i"
  by (simp add: posed_part_def)

lemma part_motion_selfCollision:
  "part_motion lib (e\<lparr>selfCollision := b\<rparr>) s1 s2 i = part_motion lib e s1 s2 i"
  by (simp add: part_motion_def)

lemma motion_env_loop_selfCollision:
  "isValid_motion_env_loop lib (e\<lparr>selfCollision := b\<rparr>) s1 s2 i valid ct tr =
   isValid_motion_env_loop lib e s1 s2 i valid ct tr"
proof (induction lib e s1 s2 i valid ct tr rule: isValid_motion_env_loop.induct)
  case (1 lib e s1 s2 i valid ct tr)
  show ?case
  proof (cases "i < length (robotParts e) \<and> valid")
    case True
    let ?ca = "conservativeAdvancement lib (robotParts e ! i) (part_motion lib e s1 s2 i)
                 (environment e) InterpMotion_default ct"
    obtain n ct' where ca: "?ca = (n, ct')" by (cases ?ca)
    note ih = "1.IH"[OF True refl refl ca[symmetric]]
    show ?thesis
      using True ca ih
      by (subst isValid_motion_env_loop.simps, subst (2) isValid_motion_env_loop.simps)
         (simp add: part_motion_selfCollision)
  next
    case False
    then show ?thesis
      by (subst isValid_motion_env_loop.simps, subst (2) isValid_motion_env_loop.simps) auto
  qed
qed

lemma motion_self_outer_single:
  assumes "length (robotParts e) \<le> 1"
  shows "fst (isValid_motion_self_outer lib e s1 s2 0 valid ct tr) = valid \<and>
         fst (snd (isValid_motion_self_outer lib e s1 s2 0 valid ct tr)) = ct"
proof (cases "0 < length (robotParts e) \<and> valid")
  case True
  with assms have len: "length (robotParts e) = 1" by (cases "robotParts e") auto
  have inner: "isValid_motion_self_inner lib e s1 s2 0 m (Suc 0) v ct tr0 = (v, ct, tr0)"
    for m tr0 v
    using len by (subst isValid_motion_self_inner.simps) simp
  have last: "isValid_motion_self_outer lib e s1 s2 (Suc 0) v ct tr0 = (v, ct, tr0)" for tr0 v
    using len by (subst isValid_motion_self_outer.simps) simp
  have "isValid_motion_self_outer lib e s1 s2 0 valid ct tr =
      (valid, ct, tr @ [PoseFromState 0, PoseFromState 0])"
    using True by (subst isValid_motion_self_outer.simps) (simp add: inner last)
  then show ?thesis by simp
next
  case False
  then have "isValid_motion_self_outer lib e s1 s2 0 valid ct tr = (valid, ct, tr)"
    by (subst isValid_motion_self_outer.simps) auto
  then show ?thesis by simp
qed

text \<open>
  Claim C7. For an engine of at most one robot part, the discrete query gives the same
  validity, and the continuous query the same validity and the same collision time,
  whether self-collision checking is on or off: there is no pair \<open>i < j\<close> to test.
\<close>

theorem selfCollision_no_effect_single_part:
  assumes "length (robotParts e) \<le> 1"
  shows "fst (isValid lib (e\<lparr>selfCollision := True\<rparr>) state) =
           fst (isValid lib (e\<lparr>selfCollision := False\<rparr>) state) \<and>
         fst (isValid_motion lib (e\<lparr>selfCollision := True\<rparr>) s1 s2) =
           fst (isValid_motion lib (e\<lparr>selfCollision := False\<rparr>) s1 s2) \<and>
         fst (snd (isValid_motion lib (e\<lparr>selfCollision := True\<rparr>) s1 s2)) =
           fst (snd (isValid_motion lib (e\<lparr>selfCollision := False\<rparr>) s1 s2))"
proof -
  have no_pair: "\<And>i j. i < j \<and> j < length (robotParts e) \<longleftrightarrow> False"
    using assms by auto
  have discrete: "fst (isValid lib (e\<lparr>selfCollision := True\<rparr>) state) =
           fst (isValid lib (e\<lparr>selfCollision := False\<rparr>) state)"
    by (simp add: isValid_valid posed_part_selfCollision no_pair)
  let ?env = "if num_tris (environment e) > 0
              then isValid_motion_env_loop lib e s1 s2 0 True 1 [] else (True, 1, [])"
  obtain v1 t1 tr1 where env: "?env = (v1, t1, tr1)" by (cases ?env)
  have off: "isValid_motion lib (e\<lparr>selfCollision := False\<rparr>) s1 s2 =
      (v1, t1, e\<lparr>selfCollision := False\<rparr>, tr1)"
    using env by (auto simp: isValid_motion_def motion_env_loop_selfCollision split: if_splits)
  let ?e1 = "e\<lparr>selfCollision := True\<rparr>"
  have len1: "length (robotParts ?e1) \<le> 1" using assms by simp
  note single = motion_self_outer_single[OF len1, of lib s1 s2 v1 t1 tr1]
  have on: "fst (isValid_motion lib ?e1 s1 s2) = v1 \<and> fst (snd (isValid_motion lib ?e1 s1 s2)) = t1"
  proof (cases v1)
    case True
    obtain v2 t2 tr2 where self: "isValid_motion_self_outer lib ?e1 s1 s2 0 v1 t1 tr1 = (v2, t2, tr2)"
      by (cases "isValid_motion_self_outer lib ?e1 s1 s2 0 v1 t1 tr1")
    have "isValid_motion lib ?e1 s1 s2 = (v2, t2, ?e1, tr2)"
      using env True self
      by (auto simp: isValid_motion_def motion_env_loop_selfCollision split: if_splits)
    with single self show ?thesis by simp
  next
    case False
    have "isValid_motion lib ?e1 s1 s2 = (v1, t1, ?e1, tr1)"
      using env False
      by (auto simp: isValid_motion_def motion_env_loop_selfCollision split: if_splits)
    then show ?thesis by simp
  qed
  from discrete on off show ?thesis by simp
qed

lemmas SE2_defs = SE2_engine_def SE2_getRobotCount_def SE2_isSelfCollisionEnabled_def
  SE2_getGeometricComponentStateInternal_def

theorem selfCollision_no_effect_single_part_witness:
  "length (robotParts SE2_engine) \<le> 1 \<and>
   fst (isValid point_lib (SE2_engine\<lparr>selfCollision := True\<rparr>) (10, 0, 0)) =
     fst (isValid point_lib (SE2_engine\<lparr>selfCollision := False\<rparr>) (10, 0, 0)) \<and>
   fst (isValid_motion point_lib (SE2_engine\<lparr>selfCollision := True\<rparr>) (0, 0, 0) (10, 0, 0)) =
     fst (isValid_motion point_lib (SE2_engine\<lparr>selfCollision := False\<rparr>) (0, 0, 0) (10, 0, 0)) \<and>
   fst (snd (isValid_motion point_lib (SE2_engine\<lparr>selfCollision := True\<rparr>) (0, 0, 0) (10, 0, 0))) =
     fst (snd (isValid_motion point_lib (SE2_engine\<lparr>selfCollision := False\<rparr>) (0, 0, 0) (10, 0, 0)))"
proof -
  have single: "length (robotParts SE2_engine) \<le> 1"
    by (simp add: SE2_defs)
  from selfCollision_no_effect_single_part[OF single, of point_lib "(10, 0, 0)" "(0, 0, 0)" "(10, 0, 0)"]
    single
  show ?thesis by simp
qed

text \<open>The queries of the witness do tell states and motions apart.\<close>

lemma SE2_engine_queries:
  "fst (isValid point_lib SE2_engine (10, 0, 0)) = False \<and>
   fst (isValid point_lib SE2_engine (1, 0, 0)) = True \<and>
   fst (isValid_motion point_lib SE2_engine (0, 0, 0) (10, 0, 0)) = False"
  by (simp add: isValid_def transformRobot_def transformRobot_loop.simps isValid_env_loop.simps
      isValid_motion_def isValid_motion_env_loop.simps Let_def SE2_defs example_defs)

subsection \<open>The clearance query\<close>

lemma less_BVH_REAL_Infinity: "\<not> less_BVH_REAL a Infinity \<longleftrightarrow> a = Infinity"
  by (cases a) simp_all

lemma less_BVH_REAL_trans:
  "\<not> less_BVH_REAL a b \<Longrightarrow> \<not> less_BVH_REAL b c \<Longrightarrow> \<not> less_BVH_REAL a c"
  by (cases a; cases b; cases c) simp_all

lemma less_BVH_REAL_asym: "less_BVH_REAL a b \<Longrightarrow> \<not> less_BVH_REAL b a"
  by (cases a; cases b) simp_all

lemma less_BVH_REAL_irrefl: "\<not> less_BVH_REAL a a"
  by (cases a) simp_all

text \<open>
  The loop returns a value that is no larger than the starting value and than the
  distance of every part from \<open>i\<close> on, and that is one of them.
\<close>

lemma clearance_loop_min:
  "clearance_loop lib e i d0 tr = (d, tr') \<Longrightarrow>
     \<not> less_BVH_REAL d0 d \<and>
     (\<forall>k. i \<le> k \<and> k < length (robotParts e) \<longrightarrow>
        \<not> less_BVH_REAL (min_distance lib (environment e) (robotParts e ! k)) d) \<and>
     (d = d0 \<or> (\<exists>k. i \<le> k \<and> k < length (robotParts e) \<and>
        d = min_distance lib (environment e) (robotParts e ! k)))"
proof (induction lib e i d0 tr arbitrary: d tr' rule: clearance_loop.induct)
  case (1 lib e i d0 tr)
  let ?n = "length (robotParts e)"
  let ?D = "\<lambda>k. min_distance lib (environment e) (robotParts e ! k)"
  show ?case
  proof (cases "i < ?n")
    case True
    let ?d1 = "if less_BVH_REAL (?D i) d0 then ?D i else d0"
    have next_call: "clearance_loop lib e (i + 1) ?d1 (tr @ [Distance Environment (RobotPart i)]) = (d, tr')"
      using "1.prems" True by (subst (asm) clearance_loop.simps) (simp add: Let_def)
    from "1.IH"[OF True refl next_call]
    have ih1: "\<not> less_BVH_REAL ?d1 d"
      and ih2: "\<forall>k. i + 1 \<le> k \<and> k < ?n \<longrightarrow> \<not> less_BVH_REAL (?D k) d"
      and ih3: "d = ?d1 \<or> (\<exists>k. i + 1 \<le> k \<and> k < ?n \<and> d = ?D k)"
      by blast+
    have d1_d0: "\<not> less_BVH_REAL d0 ?d1"
      by (auto simp: less_BVH_REAL_irrefl dest: less_BVH_REAL_asym)
    have d1_Di: "\<not> less_BVH_REAL (?D i) ?d1"
      by (auto simp: less_BVH_REAL_irrefl)
    have a: "\<not> less_BVH_REAL d0 d"
      using less_BVH_REAL_trans[OF d1_d0 ih1] .
    have bi: "\<not> less_BVH_REAL (?D i) d"
      using less_BVH_REAL_trans[OF d1_Di ih1] .
    have b: "\<forall>k. i \<le> k \<and> k < ?n \<longrightarrow> \<not> less_BVH_REAL (?D k) d"
      using all_from_step[OF True, of "\<lambda>k. \<not> less_BVH_REAL (?D k) d"] bi ih2 by simp
    have c: "d = d0 \<or> (\<exists>k. i \<le> k \<and> k < ?n \<and> d = ?D k)"
    proof -
      from ih3 show ?thesis
      proof
        assume "d = ?d1"
        then show ?thesis using True by (cases "less_BVH_REAL (?D i) d0") auto
      next
        assume "\<exists>k. i + 1 \<le> k \<and> k < ?n \<and> d = ?D k"
        then obtain k where "i + 1 \<le> k" "k < ?n" "d = ?D k" by blast
        then have "i \<le> k \<and> k < ?n \<and> d = ?D k" by simp
        then show ?thesis by blast
      qed
    qed
    from a b c show ?thesis by blast
  next
    case False
    with "1.prems" have "d = d0"
      by (subst (asm) clearance_loop.simps) simp
    with False show ?thesis by (auto simp: less_BVH_REAL_irrefl)
  qed
qed

lemma finite_nonneg_iff: "finite_nonneg a \<longleftrightarrow> (\<exists>d. a = Finite d \<and> 0 \<le> d)"
  by (cases a) simp_all

text \<open>
  Claim C5, amended. The clearance is infinite when the environment has zero triangles.
  When the environment has triangles, the clearance is the minimum over the robot parts,
  posed at the state, of the part-to-environment distance: it is no larger than the
  distance of any part; it is infinite when the robot has no part; it is the distance of
  some part when the robot has one; and it is finite and non-negative when the robot has
  a part and the library's distances are finite and non-negative.
\<close>

theorem clearance_minimum:
  "(num_tris (environment e) = 0 \<longrightarrow> fst (clearance lib e state) = Infinity) \<and>
   (num_tris (environment e) > 0 \<longrightarrow>
      (\<forall>i. i < length (robotParts e) \<longrightarrow>
         \<not> less_BVH_REAL (part_distance lib e state i) (fst (clearance lib e state))) \<and>
      (robotParts e = [] \<longrightarrow> fst (clearance lib e state) = Infinity) \<and>
      (robotParts e \<noteq> [] \<longrightarrow>
         (\<exists>i. i < length (robotParts e) \<and>
            fst (clearance lib e state) = part_distance lib e state i)) \<and>
      (robotParts e \<noteq> [] \<and>
       (\<forall>i. i < length (robotParts e) \<longrightarrow> finite_nonneg (part_distance lib e state i)) \<longrightarrow>
         finite_nonneg (fst (clearance lib e state))))"
proof (cases "num_tris (environment e) > 0")
  case False
  then show ?thesis by (simp add: clearance_def)
next
  case True
  let ?n = "length (robotParts e)"
  obtain e1 tr1 where tr: "transformRobot_loop e state 0 [] = (e1, tr1)"
    by (cases "transformRobot_loop e state 0 []")
  note fr = transformRobot_loop_frame[OF tr]
  have parts: "\<And>k. k < ?n \<Longrightarrow> robotParts e1 ! k = posed_part e state k"
    using transformRobot_loop_parts[OF tr] by simp
  obtain d tr2 where loop: "clearance_loop lib e1 0 Infinity tr1 = (d, tr2)"
    by (cases "clearance_loop lib e1 0 Infinity tr1")
  have res: "fst (clearance lib e state) = d"
    using True tr loop by (simp add: clearance_def transformRobot_def)
  from clearance_loop_min[OF loop] fr parts
  have low: "\<forall>k. k < ?n \<longrightarrow> \<not> less_BVH_REAL (part_distance lib e state k) d"
    and att: "d = Infinity \<or> (\<exists>k. k < ?n \<and> d = part_distance lib e state k)"
    by (auto simp: part_distance_def)
  have none: "robotParts e = [] \<longrightarrow> d = Infinity"
    using att by auto
  have some: "robotParts e \<noteq> [] \<longrightarrow> (\<exists>i. i < ?n \<and> d = part_distance lib e state i)"
  proof
    assume ne: "robotParts e \<noteq> []"
    from att show "\<exists>i. i < ?n \<and> d = part_distance lib e state i"
    proof
      assume inf: "d = Infinity"
      from ne have 0: "0 < ?n" by simp
      with low inf have "part_distance lib e state 0 = Infinity"
        by (simp add: less_BVH_REAL_Infinity)
      with inf 0 show ?thesis by auto
    qed
  qed
  have fin: "robotParts e \<noteq> [] \<and> (\<forall>i. i < ?n \<longrightarrow> finite_nonneg (part_distance lib e state i))
      \<longrightarrow> finite_nonneg d"
    using some by auto
  from True res low none some fin show ?thesis by simp
qed

lemma one_part_clearance:
  "fst (clearance point_lib one_part_engine near_state) = Finite 1"
  by (simp add: clearance_def transformRobot_def transformRobot_loop.simps clearance_loop.simps
      Let_def example_defs)

theorem clearance_minimum_witness:
  "num_tris (environment free_engine) = 0 \<and>
   fst (clearance point_lib free_engine near_state) = Infinity \<and>
   num_tris (environment no_robot_engine) > 0 \<and> robotParts no_robot_engine = [] \<and>
   fst (clearance point_lib no_robot_engine rest_state) = Infinity \<and>
   num_tris (environment one_part_engine) > 0 \<and> robotParts one_part_engine \<noteq> [] \<and>
   finite_nonneg (part_distance point_lib one_part_engine near_state 0) \<and>
   fst (clearance point_lib one_part_engine near_state) =
     part_distance point_lib one_part_engine near_state 0 \<and>
   finite_nonneg (fst (clearance point_lib one_part_engine near_state))"
proof -
  have e0: "num_tris (environment free_engine) = 0"
    by (simp add: example_defs)
  have e1: "num_tris (environment no_robot_engine) > 0 \<and> robotParts no_robot_engine = []"
    by (simp add: example_defs)
  have e2: "num_tris (environment one_part_engine) > 0 \<and> robotParts one_part_engine \<noteq> [] \<and>
      length (robotParts one_part_engine) = 1"
    by (simp add: example_defs)
  have d0: "part_distance point_lib one_part_engine near_state 0 = Finite 1"
    by (simp add: part_distance_def posed_part_def example_defs)
  have fin: "\<forall>i. i < length (robotParts one_part_engine) \<longrightarrow>
      finite_nonneg (part_distance point_lib one_part_engine near_state i)"
    using e2 d0 by simp
  from clearance_minimum[of free_engine point_lib near_state] e0
  have r0: "fst (clearance point_lib free_engine near_state) = Infinity" by simp
  from clearance_minimum[of no_robot_engine point_lib rest_state] e1
  have r1: "fst (clearance point_lib no_robot_engine rest_state) = Infinity" by simp
  have pos: "0 < num_tris (environment one_part_engine)" and ne: "robotParts one_part_engine \<noteq> []"
    using e2 by simp_all
  note th = clearance_minimum[of one_part_engine point_lib near_state]
  from th pos have inner:
    "(robotParts one_part_engine \<noteq> [] \<longrightarrow>
         (\<exists>i. i < length (robotParts one_part_engine) \<and>
            fst (clearance point_lib one_part_engine near_state) =
              part_distance point_lib one_part_engine near_state i)) \<and>
      (robotParts one_part_engine \<noteq> [] \<and>
       (\<forall>i. i < length (robotParts one_part_engine) \<longrightarrow>
          finite_nonneg (part_distance point_lib one_part_engine near_state i)) \<longrightarrow>
         finite_nonneg (fst (clearance point_lib one_part_engine near_state)))"
    by simp
  from inner ne fin have r2: "finite_nonneg (fst (clearance point_lib one_part_engine near_state))"
    by simp
  from inner ne obtain i where "i < length (robotParts one_part_engine)"
    and at: "fst (clearance point_lib one_part_engine near_state) =
              part_distance point_lib one_part_engine near_state i"
    by blast
  with e2 have "i = 0" by simp
  with at have r3: "fst (clearance point_lib one_part_engine near_state) =
     part_distance point_lib one_part_engine near_state 0" by simp
  from e0 e1 e2 d0 r0 r1 r2 r3 show ?thesis by simp
qed

lemma no_robot_clearance:
  "fst (clearance point_lib no_robot_engine rest_state) = Infinity"
  by (simp add: clearance_def transformRobot_def transformRobot_loop.simps clearance_loop.simps
      example_defs)

text \<open>
  Claim C5 as stated fails: an engine built from one obstacle triangle and no robot piece
  has an environment of one triangle and an infinite clearance.
\<close>

theorem clearance_infinite_nonempty_environment:
  "FCLMethodWrapper_new False scene_points no_robot_geom part_state False translation_pose =
     Inr no_robot_engine \<and>
   FCLMethodWrapper_new True scene_points no_robot_geom part_state False translation_pose =
     Inr no_robot_engine \<and>
   \<not> (fst (clearance point_lib no_robot_engine rest_state) = Infinity \<longleftrightarrow>
      num_tris (environment no_robot_engine) = 0)"
proof -
  have "num_tris (environment no_robot_engine) = 1"
    by (simp add: example_defs)
  with no_robot_engine_built no_robot_clearance show ?thesis by simp
qed

subsection \<open>Construction\<close>

lemma error_is_AssertionFailed: "(err :: error) = AssertionFailed"
  by (cases err) simp

lemma assertion_fails_null [simp]: "\<not> assertion_fails NDEBUG ext None"
  by (simp add: assertion_fails_def)

lemma scenes_loop_end:
  "\<not> i < length scenes \<Longrightarrow> scenes_loop NDEBUG ext scenes center i pts tris = Inr (pts, tris)"
  by (subst scenes_loop.simps) simp

text \<open>One step of the loop over the scenes, by the kind of source at index \<open>i\<close>.\<close>

lemma scenes_loop_null:
  "i < length scenes \<Longrightarrow> scenes ! i = None \<Longrightarrow>
   scenes_loop NDEBUG ext scenes center i pts tris = scenes_loop NDEBUG ext scenes center (i + 1) pts tris"
  by (rule trans[OF scenes_loop.simps]) simp

lemma scenes_loop_step:
  assumes lt: "i < length scenes"
  shows "\<exists>pts' tris'. scenes_loop NDEBUG ext scenes center i pts tris =
      (if assertion_fails NDEBUG ext (scenes ! i) then Inl AssertionFailed
       else scenes_loop NDEBUG ext scenes center (i + 1) pts' tris')"
proof (cases "scenes ! i")
  case None
  with scenes_loop_null[OF lt None, of NDEBUG ext center pts tris] show ?thesis by auto
next
  case (Some scene)
  let ?t = "if length center > i then map (\<lambda>p. vec_sub p (center ! i)) (ext scene)
            else ext scene"
  have len: "length ?t = length (ext scene)" by simp
  have "scenes_loop NDEBUG ext scenes center i pts tris =
      (if \<not> NDEBUG \<and> length ?t mod 3 \<noteq> 0 then Inl AssertionFailed
       else scenes_loop NDEBUG ext scenes center (i + 1) (pts @ ?t)
              (triangles_loop (length ?t) 0 tris))"
    using lt Some by (intro trans[OF scenes_loop.simps]) (simp add: Let_def)
  then have "scenes_loop NDEBUG ext scenes center i pts tris =
      (if assertion_fails NDEBUG ext (scenes ! i) then Inl AssertionFailed
       else scenes_loop NDEBUG ext scenes center (i + 1) (pts @ ?t)
              (triangles_loop (length ?t) 0 tris))"
    unfolding len using Some by (simp add: assertion_fails_def)
  then show ?thesis by blast
qed

lemma scenes_loop_malformed:
  "i \<le> k \<Longrightarrow> k < length scenes \<Longrightarrow> assertion_fails NDEBUG ext (scenes ! k) \<Longrightarrow>
   scenes_loop NDEBUG ext scenes center i pts tris = Inl AssertionFailed"
proof (induction "k - i" arbitrary: i pts tris)
  case 0
  then have "i = k" by simp
  with "0.prems" scenes_loop_step[of k scenes NDEBUG ext center pts tris] show ?case by auto
next
  case (Suc n)
  then have lt: "i < length scenes" and le: "i + 1 \<le> k" and n: "n = k - (i + 1)" by simp_all
  from scenes_loop_step[OF lt, of NDEBUG ext center pts tris]
  obtain pts' tris' where step: "scenes_loop NDEBUG ext scenes center i pts tris =
      (if assertion_fails NDEBUG ext (scenes ! i) then Inl AssertionFailed
       else scenes_loop NDEBUG ext scenes center (i + 1) pts' tris')" by blast
  with Suc.hyps(1)[OF n le Suc.prems(2,3), of pts' tris'] show ?case by simp
qed

lemma scenes_loop_wellformed:
  "(\<forall>k. i \<le> k \<and> k < length scenes \<longrightarrow> \<not> assertion_fails NDEBUG ext (scenes ! k)) \<Longrightarrow>
   \<exists>r. scenes_loop NDEBUG ext scenes center i pts tris = Inr r"
proof (induction "length scenes - i" arbitrary: i pts tris)
  case 0
  then show ?case by (simp add: scenes_loop_end)
next
  case (Suc n)
  then have lt: "i < length scenes" and n: "n = length scenes - (i + 1)" by simp_all
  from Suc.prems lt have ok: "\<not> assertion_fails NDEBUG ext (scenes ! i)" by simp
  from Suc.prems have rest:
    "\<forall>k. i + 1 \<le> k \<and> k < length scenes \<longrightarrow> \<not> assertion_fails NDEBUG ext (scenes ! k)" by simp
  from scenes_loop_step[OF lt, of NDEBUG ext center pts tris] ok
  obtain pts' tris' where "scenes_loop NDEBUG ext scenes center i pts tris =
      scenes_loop NDEBUG ext scenes center (i + 1) pts' tris'" by auto
  with Suc.hyps(1)[OF n rest, of pts' tris'] show ?case by simp
qed




lemma getFCLModelFromScene_malformed:
  "assertion_fails NDEBUG ext src \<Longrightarrow> getFCLModelFromScene NDEBUG ext src center = Inl AssertionFailed"
  unfolding getFCLModelFromScene_def getFCLModelFromScenes_def
  by (rule scenes_loop_malformed[of 0 0]) simp_all

lemma getFCLModelFromScene_wellformed:
  "\<not> assertion_fails NDEBUG ext src \<Longrightarrow> \<exists>r. getFCLModelFromScene NDEBUG ext src center = Inr r"
  unfolding getFCLModelFromScene_def getFCLModelFromScenes_def
  by (rule scenes_loop_wellformed) simp


lemma configure_robot_loop_step:
  assumes lt: "rbt < length (robot geom)"
  shows "\<exists>parts'. configure_robot_loop NDEBUG ext geom rbt parts =
      (if assertion_fails NDEBUG ext (robot geom ! rbt) then Inl AssertionFailed
       else configure_robot_loop NDEBUG ext geom (rbt + 1) parts')"
proof -
  let ?shift = "if length (robotShift geom) > rbt then robotShift geom ! rbt else zero_vec"
  let ?m = "getFCLModelFromScene NDEBUG ext (robot geom ! rbt) ?shift"
  have unfold: "configure_robot_loop NDEBUG ext geom rbt parts =
      (case ?m of Inl err \<Rightarrow> Inl err
       | Inr tri_model \<Rightarrow>
           configure_robot_loop NDEBUG ext geom (rbt + 1)
             (parts @ [addSubModel beginModel (fst tri_model) (snd tri_model)]))"
    using lt by (intro trans[OF configure_robot_loop.simps]) (simp add: Let_def)
  show ?thesis
  proof (cases "assertion_fails NDEBUG ext (robot geom ! rbt)")
    case True
    from getFCLModelFromScene_malformed[OF True, of ?shift] unfold True show ?thesis by simp
  next
    case False
    from getFCLModelFromScene_wellformed[OF False, of ?shift]
    obtain r where "?m = Inr r" by blast
    with unfold False have "configure_robot_loop NDEBUG ext geom rbt parts =
      (if assertion_fails NDEBUG ext (robot geom ! rbt) then Inl AssertionFailed
       else configure_robot_loop NDEBUG ext geom (rbt + 1)
              (parts @ [addSubModel beginModel (fst r) (snd r)]))" by simp
    then show ?thesis by blast
  qed
qed


lemma configure_robot_loop_malformed:
  "rbt \<le> k \<Longrightarrow> k < length (robot geom) \<Longrightarrow> assertion_fails NDEBUG ext (robot geom ! k) \<Longrightarrow>
   configure_robot_loop NDEBUG ext geom rbt parts = Inl AssertionFailed"
proof (induction "k - rbt" arbitrary: rbt parts)
  case 0
  then have "rbt = k" by simp
  with "0.prems" configure_robot_loop_step[of k geom NDEBUG ext parts] show ?case by auto
next
  case (Suc n)
  then have lt: "rbt < length (robot geom)" and le: "rbt + 1 \<le> k" and n: "n = k - (rbt + 1)"
    by simp_all
  from configure_robot_loop_step[OF lt, of NDEBUG ext parts]
  obtain parts' where "configure_robot_loop NDEBUG ext geom rbt parts =
      (if assertion_fails NDEBUG ext (robot geom ! rbt) then Inl AssertionFailed
       else configure_robot_loop NDEBUG ext geom (rbt + 1) parts')" by blast
  with Suc.hyps(1)[OF n le Suc.prems(2,3), of parts'] show ?case by simp
qed



text \<open>
  Claim C6, amended. In a build that compiles assertions in, if some mesh source of the
  Geometry Specification, obstacle or robot piece, yields a point count that is not a
  multiple of three, the constructor ends in the failed assertion: it returns no
  engine, and no model is built from a truncated mesh.
\<close>

theorem malformed_mesh_aborts_construction:
  assumes "\<exists>src \<in> set (obstacles geom) \<union> set (robot geom). malformed ext src"
  shows "FCLMethodWrapper_new False ext geom se selfColl poseCallback = Inl AssertionFailed"
proof -
  from assms obtain src where src: "src \<in> set (obstacles geom) \<union> set (robot geom)"
    and "malformed ext src" by blast
  then have bad: "assertion_fails False ext src"
    by (simp add: assertion_fails_def)
  have "configure False ext geom = Inl AssertionFailed"
  proof (cases "src \<in> set (obstacles geom)")
    case True
    then obtain k where "k < length (obstacles geom)" "obstacles geom ! k = src"
      by (auto simp: in_set_conv_nth)
    with bad have "getFCLModelFromScenes False ext (obstacles geom) (obstaclesShift geom) =
        Inl AssertionFailed"
      unfolding getFCLModelFromScenes_def by (intro scenes_loop_malformed[of 0 k]) simp_all
    then show ?thesis by (simp add: configure_def)
  next
    case False
    with src obtain k where "k < length (robot geom)" "robot geom ! k = src"
      by (auto simp: in_set_conv_nth)
    with bad have "configure_robot_loop False ext geom 0 [] = Inl AssertionFailed"
      by (intro configure_robot_loop_malformed[of 0 k]) simp_all
    then show ?thesis
      by (simp add: configure_def error_is_AssertionFailed split: sum.splits)
  qed
  then show ?thesis by (simp add: FCLMethodWrapper_new_def)
qed

theorem malformed_mesh_aborts_construction_witness:
  "(\<exists>src \<in> set (obstacles open_quad_geom) \<union> set (robot open_quad_geom).
      malformed scene_points src) \<and>
   FCLMethodWrapper_new False scene_points open_quad_geom part_state False translation_pose =
     Inl AssertionFailed"
proof -
  have bad: "\<exists>src \<in> set (obstacles open_quad_geom) \<union> set (robot open_quad_geom).
      malformed scene_points src"
    by (simp add: open_quad_geom_def open_quad_def far_triangle_def scene_points_def)
  from malformed_mesh_aborts_construction[OF bad, of part_state False translation_pose] bad
  show ?thesis by blast
qed

lemma open_quad_engine_built:
  "FCLMethodWrapper_new True scene_points open_quad_geom part_state False translation_pose =
     Inr open_quad_engine"
  by (simp add: construction_defs open_quad_geom_def open_quad_engine_def example_defs)

text \<open>
  Claim C6 as stated fails in a build with \<^verbatim>\<open>NDEBUG\<close>: the robot mesh of four points is
  malformed, and the constructor returns an engine whose robot piece holds the four
  points and a second triangle over the points 3, 4 and 5.
\<close>

theorem malformed_mesh_accepted_without_assertions:
  "malformed scene_points (Some open_quad) \<and>
   robot open_quad_geom = [Some open_quad] \<and>
   FCLMethodWrapper_new True scene_points open_quad_geom part_state False translation_pose =
     Inr open_quad_engine \<and>
   FCLMethodWrapper_new True scene_points open_quad_geom part_state False translation_pose \<noteq>
     Inl AssertionFailed \<and>
   length (vertices (robotParts open_quad_engine ! 0)) = 4 \<and>
   tri_indices (robotParts open_quad_engine ! 0) = [(0, 1, 2), (3, 4, 5)]"
proof -
  have "malformed scene_points (Some open_quad) \<and> robot open_quad_geom = [Some open_quad]"
    by (simp add: open_quad_geom_def open_quad_def scene_points_def)
  moreover have "length (vertices (robotParts open_quad_engine ! 0)) = 4 \<and>
      tri_indices (robotParts open_quad_engine ! 0) = [(0, 1, 2), (3, 4, 5)]"
    by (simp add: open_quad_engine_def example_defs)
  ultimately show ?thesis using open_quad_engine_built by simp
qed




end
